theory Spec2Isabelle
  imports Complex_Main
begin

section \<open>Platform model: numbers, strings and dates\<close>

text \<open>
  The booking picker works on three kinds of JavaScript values: numbers, strings and
  \<open>Date\<close> objects. The numbers the picker computes are integers (hours, minutes,
  minutes of the day, milliseconds) or \<open>NaN\<close>, the result of converting a string
  that is not a number. Every comparison with \<open>NaN\<close> is false.
\<close>

datatype number = NaN | Val int

fun num_lt :: "number \<Rightarrow> number \<Rightarrow> bool" where
  "num_lt (Val a) (Val b) = (a < b)"
| "num_lt _ _ = False"

fun num_add :: "number \<Rightarrow> number \<Rightarrow> number" where
  "num_add (Val a) (Val b) = Val (a + b)"
| "num_add _ _ = NaN"

fun num_sub :: "number \<Rightarrow> number \<Rightarrow> number" where
  "num_sub (Val a) (Val b) = Val (a - b)"
| "num_sub _ _ = NaN"

fun num_mul :: "number \<Rightarrow> number \<Rightarrow> number" where
  "num_mul (Val a) (Val b) = Val (a * b)"
| "num_mul _ _ = NaN"

fun num_abs :: "number \<Rightarrow> number" where
  "num_abs (Val a) = Val \<bar>a\<bar>"
| "num_abs NaN = NaN"

subsection \<open>Strings\<close>

definition digit_char :: "nat \<Rightarrow> char" where
  "digit_char d = ''0123456789'' ! d"

fun digits_of_nat :: "nat \<Rightarrow> string" where
  "digits_of_nat n =
     (if n < 10 then [digit_char n] else digits_of_nat (n div 10) @ [digit_char (n mod 10)])"

declare digits_of_nat.simps [simp del]

text \<open>\<open>String(x)\<close> for the numbers of the model.\<close>

fun String :: "number \<Rightarrow> string" where
  "String NaN = ''NaN''"
| "String (Val i) = (if i < 0 then CHR ''-'' # digits_of_nat (nat (- i)) else digits_of_nat (nat i))"

text \<open>\<open>s.padStart(n, c)\<close> with a one-character filler.\<close>

definition padStart :: "nat \<Rightarrow> char \<Rightarrow> string \<Rightarrow> string" where
  "padStart n c s = replicate (n - length s) c @ s"

text \<open>
  \<open>s.split(c)\<close> with a one-character separator: the empty string splits into one
  empty field, and a trailing separator leaves an empty last field.
\<close>

fun split :: "char \<Rightarrow> string \<Rightarrow> string list" where
  "split c [] = [[]]"
| "split c (x # xs) =
     (if x = c then [] # split c xs
      else (case split c xs of [] \<Rightarrow> [[x]] | w # ws \<Rightarrow> (x # w) # ws))"

definition is_digit :: "char \<Rightarrow> bool" where
  "is_digit ch = (ch \<in> set ''0123456789'')"

definition digit_val :: "char \<Rightarrow> nat" where
  "digit_val ch = of_char ch - 48"

definition nat_of_digits :: "string \<Rightarrow> nat" where
  "nat_of_digits s = foldl (\<lambda>acc ch. 10 * acc + digit_val ch) 0 s"

text \<open>
  \<open>Number(s)\<close>: the empty string is 0, a string of decimal digits is its value, and
  anything else is \<open>NaN\<close>. The picker only ever converts the fields of \<open>HH:mm\<close>
  and \<open>YYYY-MM-DD\<close> strings; signs, blanks, fractions, exponents and hexadecimal
  literals are outside the model, and the theorems below assume slots whose fields convert
  to a value.
\<close>

definition Number :: "string \<Rightarrow> number" where
  "Number s = (if s = [] then Val 0
               else if list_all is_digit s then Val (int (nat_of_digits s)) else NaN)"

text \<open>
  Array destructuring \<open>const [a, b] = xs\<close>: a missing element is \<open>undefined\<close>, which
  every arithmetic operation and every \<open>Date\<close> setter turns into \<open>NaN\<close>.
\<close>

definition elem :: "number list \<Rightarrow> nat \<Rightarrow> number" where
  "elem xs i = (if i < length xs then xs ! i else NaN)"

subsection \<open>Dates\<close>

text \<open>
  A \<open>Date\<close> object holds a time value: a number of milliseconds, or \<open>NaN\<close> for an
  invalid date. The picker only uses the local-time accessors, so the time value of the model
  counts milliseconds of local wall-clock time from local midnight of 1 January 1970; the
  offset of the time zone is taken as constant (no daylight-saving change). A day is
  86400000 ms.
\<close>

datatype Date = Date (getTime: number)

definition msPerDay :: int where
  "msPerDay = 86400000"

definition Day :: "int \<Rightarrow> int" where
  "Day t = t div msPerDay"

text \<open>Time values beyond 8.64e15 ms are not dates.\<close>

definition TimeClip :: "int \<Rightarrow> number" where
  "TimeClip t = (if \<bar>t\<bar> > 8640000000000000 then NaN else Val t)"

text \<open>\<open>d.setHours(h, m, s, ms)\<close> on a copy of \<open>d\<close>: same local day, new time of day.\<close>

definition setHours :: "Date \<Rightarrow> number \<Rightarrow> number \<Rightarrow> number \<Rightarrow> number \<Rightarrow> Date" where
  "setHours d h m s ms =
     (case (getTime d, h, m, s, ms) of
        (Val t, Val hv, Val mv, Val sv, Val msv) \<Rightarrow>
          Date (TimeClip (Day t * msPerDay + hv * 3600000 + mv * 60000 + sv * 1000 + msv))
      | _ \<Rightarrow> Date NaN)"

text \<open>
  \<open>d.toDateString()\<close> names the local calendar day of \<open>d\<close> (weekday, month, day, year)
  and is \<open>Invalid Date\<close> for an invalid date. The code only compares two such strings, so
  the model keeps the day the string names: \<open>None\<close> stands for \<open>Invalid Date\<close>.
\<close>

definition toDateString :: "Date \<Rightarrow> int option" where
  "toDateString d = (case getTime d of NaN \<Rightarrow> None | Val t \<Rightarrow> Some (Day t))"

text \<open>
  \<open>d.setDate(d.getDate() + 1)\<close> on a copy of \<open>d\<close>: the following calendar day, at the same
  local time.
\<close>

definition nextDay :: "Date \<Rightarrow> Date" where
  "nextDay d = (case getTime d of NaN \<Rightarrow> Date NaN | Val t \<Rightarrow> Date (TimeClip (t + msPerDay)))"

text \<open>The proleptic Gregorian calendar of the platform: day number of a civil date.\<close>

definition DayFromYear :: "int \<Rightarrow> int" where
  "DayFromYear y =
     365 * (y - 1970) + (y - 1969) div 4 - (y - 1901) div 100 + (y - 1601) div 400"

definition InLeapYear :: "int \<Rightarrow> bool" where
  "InLeapYear y = (y mod 4 = 0 \<and> (y mod 100 \<noteq> 0 \<or> y mod 400 = 0))"

definition monthStart :: "int \<Rightarrow> bool \<Rightarrow> int" where
  "monthStart mn leap =
     [0, 31, 59, 90, 120, 151, 181, 212, 243, 273, 304, 334] ! nat mn
       + (if leap \<and> 2 \<le> mn then 1 else 0)"

text \<open>Months beyond 0..11 and days beyond the month's length carry over.\<close>

definition MakeDay :: "int \<Rightarrow> int \<Rightarrow> int \<Rightarrow> int" where
  "MakeDay year month dt =
     (let ym = year + month div 12; mn = month mod 12
      in DayFromYear ym + monthStart mn (InLeapYear ym) + dt - 1)"

text \<open>\<open>new Date(year, monthIndex, day)\<close>: local midnight; years 0..99 mean 1900..1999.\<close>

definition newDate :: "number \<Rightarrow> number \<Rightarrow> number \<Rightarrow> Date" where
  "newDate year monthIndex day =
     (case (year, monthIndex, day) of
        (Val y, Val m, Val d) \<Rightarrow>
          Date (TimeClip (MakeDay (if 0 \<le> y \<and> y \<le> 99 then 1900 + y else y) m d * msPerDay))
      | _ \<Rightarrow> Date NaN)"

text \<open>
  The civil date of a day number. The year of a day is the largest year that starts on or
  before it; the search goes up from a year that is not too late. The month is the last
  month of that year that starts on or before the day, and the day of the month counts
  from 1.
\<close>

definition yearEstimate :: "int \<Rightarrow> int" where
  "yearEstimate z = 1970 + (if 0 \<le> z then z div 366 else z div 365)"

function yearSearch :: "int \<Rightarrow> int \<Rightarrow> int" where
  "yearSearch z y = (if DayFromYear (y + 1) \<le> z then yearSearch z (y + 1) else y)"
  by pat_completeness auto
termination
proof (relation "measure (\<lambda>(z, y). nat (z + 1 - DayFromYear (y + 1)))")
  show "wf (measure (\<lambda>(z, y). nat (z + 1 - DayFromYear (y + 1))))" by simp
next
  fix z y :: int
  assume le: "DayFromYear (y + 1) \<le> z"
  have a: "(y + 1 - 1969) div 4 \<le> (y + 1 + 1 - 1969) div 4"
    by (rule zdiv_mono1) simp_all
  have c: "(y + 1 - 1601) div 400 \<le> (y + 1 + 1 - 1601) div 400"
    by (rule zdiv_mono1) simp_all
  have "(y + 1 + 1 - 1901) div 100 \<le> (y + 1 - 1901 + 100) div 100"
    by (rule zdiv_mono1) simp_all
  then have b: "(y + 1 + 1 - 1901) div 100 \<le> (y + 1 - 1901) div 100 + 1"
    by simp
  have "p \<le> p' \<Longrightarrow> r \<le> r' \<Longrightarrow> q' \<le> q + 1 \<Longrightarrow>
        365 * (y + 1 - 1970) + p - q + r < 365 * (y + 1 + 1 - 1970) + p' - q' + r'"
    for p p' q q' r r' :: int
    by (simp add: algebra_simps)
  from this [OF a c b] have "DayFromYear (y + 1) < DayFromYear (y + 1 + 1)"
    unfolding DayFromYear_def .
  with le show "((z, y + 1), (z, y)) \<in> measure (\<lambda>(z, y). nat (z + 1 - DayFromYear (y + 1)))"
    by simp
qed

declare yearSearch.simps [simp del]

definition YearFromDay :: "int \<Rightarrow> int" where
  "YearFromDay z = yearSearch z (yearEstimate z)"

definition DayWithinYear :: "int \<Rightarrow> int" where
  "DayWithinYear z = z - DayFromYear (YearFromDay z)"

fun monthSearch :: "nat \<Rightarrow> bool \<Rightarrow> int \<Rightarrow> nat" where
  "monthSearch 0 leap dwy = 0"
| "monthSearch (Suc k) leap dwy =
     (if monthStart (int (Suc k)) leap \<le> dwy then Suc k else monthSearch k leap dwy)"

definition MonthFromDay :: "int \<Rightarrow> int" where
  "MonthFromDay z = int (monthSearch 11 (InLeapYear (YearFromDay z)) (DayWithinYear z))"

definition DateFromDay :: "int \<Rightarrow> int" where
  "DateFromDay z =
     DayWithinYear z - monthStart (MonthFromDay z) (InLeapYear (YearFromDay z)) + 1"

definition getFullYear :: "Date \<Rightarrow> number" where
  "getFullYear d = (case getTime d of NaN \<Rightarrow> NaN | Val t \<Rightarrow> Val (YearFromDay (Day t)))"

definition getMonth :: "Date \<Rightarrow> number" where
  "getMonth d = (case getTime d of NaN \<Rightarrow> NaN | Val t \<Rightarrow> Val (MonthFromDay (Day t)))"

definition getDate :: "Date \<Rightarrow> number" where
  "getDate d = (case getTime d of NaN \<Rightarrow> NaN | Val t \<Rightarrow> Val (DateFromDay (Day t)))"

section \<open>Slot generator\<close>

text \<open>
  \<^verbatim>\<open>
  const getAllTimeSlots = (): string[] => {
    const slots: string[] = [];
    for (let hour = 9; hour <= 21; hour++) {
      for (const minute of [0, 30]) {
        slots.push(`${String(hour).padStart(2, '0')}:${String(minute).padStart(2, '0')}`);
      }
    }
    return slots;
  };
  \<close>
\<close>

definition slotString :: "int \<Rightarrow> int \<Rightarrow> string" where
  "slotString hour minute =
     padStart 2 CHR ''0'' (String (Val hour)) @ '':'' @ padStart 2 CHR ''0'' (String (Val minute))"

function hourLoop :: "int \<Rightarrow> string list \<Rightarrow> string list" where
  "hourLoop hour slots =
     (if hour \<le> 21
      then hourLoop (hour + 1) (foldl (\<lambda>acc minute. acc @ [slotString hour minute]) slots [0, 30])
      else slots)"
  by pat_completeness auto
termination
  by (relation "measure (\<lambda>(hour, slots). nat (22 - hour))") auto

declare hourLoop.simps [simp del]

definition getAllTimeSlots :: "string list" where
  "getAllTimeSlots = hourLoop 9 []"


section \<open>Date helpers of the picker\<close>

text \<open>
  Every function that reads the clock (\<open>new Date()\<close>) takes the instant read, \<open>now\<close>, as
  its first argument; a function that reads the clock twice in one synchronous call reads the
  same instant.
  \<^verbatim>\<open>
  const getTodayLocal = (): Date => {
    const today = new Date();
    today.setHours(0, 0, 0, 0);
    return today;
  };
  const stripTime = (date: Date): Date => {
    const d = new Date(date);
    d.setHours(0, 0, 0, 0);
    return d;
  };
  const isPastDate = (date: Date): boolean => {
    const today = getTodayLocal();
    const dateOnly = stripTime(date);
    return dateOnly.getTime() < today.getTime();
  };
  \<close>
\<close>

definition getTodayLocal :: "int \<Rightarrow> Date" where
  "getTodayLocal now = setHours (Date (Val now)) (Val 0) (Val 0) (Val 0) (Val 0)"

definition stripTime :: "Date \<Rightarrow> Date" where
  "stripTime date = setHours date (Val 0) (Val 0) (Val 0) (Val 0)"

definition isPastDate :: "int \<Rightarrow> Date \<Rightarrow> bool" where
  "isPastDate now date =
     (let today = getTodayLocal now; dateOnly = stripTime date
      in num_lt (getTime dateOnly) (getTime today))"

section \<open>Availability filter\<close>

text \<open>
  \<^verbatim>\<open>
  const isSlotDisabled = (date: Date, slot: string): boolean => {
    const todayStr = new Date().toDateString();
    const selectedStr = date.toDateString();
    const isToday = todayStr === selectedStr;
    if (!isToday) {
      return false; // Never disable slots for future dates
    }
    const [hour, minute] = slot.split(':').map(Number);
    const slotDate = new Date(date);
    slotDate.setHours(hour, minute, 0, 0);
    const now = new Date();
    return slotDate.getTime() < now.getTime();
  };
  const getAvailableTimeSlots = (date: Date): string[] => {
    const allSlots = getAllTimeSlots();
    return allSlots.filter(slot => !isSlotDisabled(date, slot));
  };
  \<close>
\<close>

definition isSlotDisabled :: "int \<Rightarrow> Date \<Rightarrow> string \<Rightarrow> bool" where
  "isSlotDisabled now date slot =
     (let todayStr = toDateString (Date (Val now));
          selectedStr = toDateString date;
          isToday = (todayStr = selectedStr)
      in if \<not> isToday then False
         else (let parts = map Number (split CHR '':'' slot);
                   hour = elem parts 0;
                   minute = elem parts 1;
                   slotDate = setHours date hour minute (Val 0) (Val 0)
               in num_lt (getTime slotDate) (Val now)))"

definition getAvailableTimeSlots :: "int \<Rightarrow> Date \<Rightarrow> string list" where
  "getAvailableTimeSlots now date =
     (let allSlots = getAllTimeSlots
      in filter (\<lambda>slot. \<not> isSlotDisabled now date slot) allSlots)"

section \<open>Next available date\<close>

text \<open>
  \<^verbatim>\<open>
  const getNextAvailableDate = (): Date => {
    let checkDate = new Date();
    checkDate.setHours(0, 0, 0, 0);
    for (let i = 0; i < 365; i++) {
      const slots = getAvailableTimeSlots(checkDate);
      if (slots.length > 0) {
        return checkDate;
      }
      checkDate = new Date(checkDate);
      checkDate.setDate(checkDate.getDate() + 1);
    }
    return getTodayLocal();
  };
  \<close>
\<close>

function scanDays :: "int \<Rightarrow> int \<Rightarrow> Date \<Rightarrow> Date" where
  "scanDays now i checkDate =
     (if i < 365
      then (let slots = getAvailableTimeSlots now checkDate
            in if length slots > 0 then checkDate
               else scanDays now (i + 1) (nextDay checkDate))
      else getTodayLocal now)"
  by pat_completeness auto
termination
  by (relation "measure (\<lambda>(now, i, checkDate). nat (365 - i))") auto

declare scanDays.simps [simp del]

definition getNextAvailableDate :: "int \<Rightarrow> Date" where
  "getNextAvailableDate now =
     scanDays now 0 (setHours (Date (Val now)) (Val 0) (Val 0) (Val 0) (Val 0))"

text \<open>
  The contract in the words of the specification, to compare with the loop: among the 365
  calendar days from today on, in order, the first one with a non-empty list of available
  slots, and today if there is none.
\<close>

definition horizon :: "int \<Rightarrow> Date list" where
  "horizon now = map (\<lambda>k. (nextDay ^^ k) (getTodayLocal now)) [0..<365]"

definition findNextAvailableDate_spec :: "int \<Rightarrow> Date" where
  "findNextAvailableDate_spec now =
     (case find (\<lambda>d. getAvailableTimeSlots now d \<noteq> []) (horizon now) of
        Some d \<Rightarrow> d
      | None \<Rightarrow> getTodayLocal now)"

section \<open>Selection state of the picker modal\<close>

datatype Mode = DateMode | TimeMode

record PickerState =
  mode :: Mode
  selectedDate :: Date
  selectedSlot :: string

text \<open>
  An optional string property (\<open>initialDate?: string\<close>) is \<open>None\<close> when absent; the test
  \<open>if (initialDate)\<close> is false for an absent and for an empty string.
  \<^verbatim>\<open>
  const [selectedDate, setSelectedDate] = useState<Date>(() => {
    if (initialDate) {
      const [year, month, day] = initialDate.split('-').map(Number);
      const parsed = new Date(year, month - 1, day);
      if (!isPastDate(parsed)) {
        return parsed;
      }
    }
    return getTodayLocal();
  });
  \<close>
\<close>

definition truthy :: "string option \<Rightarrow> bool" where
  "truthy v = (case v of None \<Rightarrow> False | Some s \<Rightarrow> s \<noteq> [])"

definition parseInitialDate :: "string \<Rightarrow> Date" where
  "parseInitialDate s =
     (let parts = map Number (split CHR ''-'' s);
          year = elem parts 0;
          month = elem parts 1;
          day = elem parts 2
      in newDate year (num_sub month (Val 1)) day)"

definition initSelectedDate :: "int \<Rightarrow> string option \<Rightarrow> Date" where
  "initSelectedDate now initialDate =
     (if truthy initialDate
      then (let parsed = parseInitialDate (the initialDate)
            in if \<not> isPastDate now parsed then parsed else getTodayLocal now)
      else getTodayLocal now)"

text \<open>
  \<^verbatim>\<open>
  const getInitialSlot = (date: Date, initialTime?: string): string => {
    if (isPastDate(date)) {
      return '09:00'; // Fallback
    }
    const slots = getAvailableTimeSlots(date);
    if (slots.length === 0) return '09:00'; // Fallback
    if (initialTime && slots.includes(initialTime)) {
      return initialTime;
    }
    return slots[0];
  };
  \<close>
\<close>

definition getInitialSlot :: "int \<Rightarrow> Date \<Rightarrow> string option \<Rightarrow> string" where
  "getInitialSlot now date initialTime =
     (if isPastDate now date then ''09:00''
      else (let slots = getAvailableTimeSlots now date
            in if length slots = 0 then ''09:00''
               else if truthy initialTime \<and> the initialTime \<in> set slots then the initialTime
               else slots ! 0))"

text \<open>
  The two \<open>useState\<close> initializers run once, when the modal component is mounted, with the
  properties of that first render. \<open>BookPage\<close> mounts both modals closed when step 3 is
  shown, with \<open>initialDate={formData.date}\<close> and \<open>initialTime={formData.time}\<close>.
\<close>

definition mountPicker :: "int \<Rightarrow> Mode \<Rightarrow> string option \<Rightarrow> string option \<Rightarrow> PickerState" where
  "mountPicker now m initialDate initialTime =
     (let d = initSelectedDate now initialDate
      in \<lparr>mode = m, selectedDate = d, selectedSlot = getInitialSlot now d initialTime\<rparr>)"

subsection \<open>Slot reconciliation\<close>

text \<open>
  \<^verbatim>\<open>
  useEffect(() => {
    if (mode === 'time' && availableSlots.length > 0) {
      if (!availableSlots.includes(selectedSlot)) {
        const [currentH, currentM] = selectedSlot.split(':').map(Number);
        const currentMinutes = currentH * 60 + currentM;
        let nearestSlot = availableSlots[0];
        let minDiff = Infinity;
        availableSlots.forEach(slot => {
          const [h, m] = slot.split(':').map(Number);
          const slotMinutes = h * 60 + m;
          const diff = Math.abs(slotMinutes - currentMinutes);
          if (diff < minDiff) {
            minDiff = diff;
            nearestSlot = slot;
          }
        });
        setSelectedSlot(nearestSlot);
      }
    } else if (mode === 'time' && availableSlots.length > 0 && !availableSlots.includes(selectedSlot)) {
      setSelectedSlot(availableSlots[0]);
    }
  }, [selectedDate, mode, availableSlots.length, selectedSlot, mode]);
  \<close>
  The effect is modelled as the function from the state it reads to the selected slot it
  leaves. \<open>minDiff\<close> starts as \<open>Infinity\<close> and is a value afterwards: \<open>None\<close> stands
  for \<open>Infinity\<close>.
\<close>

definition minutesOfSlot :: "string \<Rightarrow> number" where
  "minutesOfSlot slot =
     (let parts = map Number (split CHR '':'' slot);
          h = elem parts 0;
          m = elem parts 1
      in num_add (num_mul h (Val 60)) m)"

definition lt_minDiff :: "number \<Rightarrow> int option \<Rightarrow> bool" where
  "lt_minDiff diff minDiff =
     (case diff of NaN \<Rightarrow> False
      | Val d \<Rightarrow> (case minDiff of None \<Rightarrow> True | Some b \<Rightarrow> d < b))"

definition nearestStep :: "number \<Rightarrow> int option \<times> string \<Rightarrow> string \<Rightarrow> int option \<times> string" where
  "nearestStep currentMinutes acc slot =
     (let slotMinutes = minutesOfSlot slot;
          diff = num_abs (num_sub slotMinutes currentMinutes)
      in if lt_minDiff diff (fst acc)
         then (case diff of Val d \<Rightarrow> (Some d, slot) | NaN \<Rightarrow> acc)
         else acc)"

definition reconcileSlot :: "Mode \<Rightarrow> string list \<Rightarrow> string \<Rightarrow> string" where
  "reconcileSlot m availableSlots slot =
     (if m = TimeMode \<and> length availableSlots > 0
      then (if slot \<notin> set availableSlots
            then (let currentMinutes = minutesOfSlot slot
                  in snd (foldl (nearestStep currentMinutes) (None, availableSlots ! 0) availableSlots))
            else slot)
      else if m = TimeMode \<and> length availableSlots > 0 \<and> slot \<notin> set availableSlots
      then availableSlots ! 0
      else slot)"

definition autoCorrect :: "int \<Rightarrow> PickerState \<Rightarrow> PickerState" where
  "autoCorrect now st =
     st\<lparr>selectedSlot :=
          reconcileSlot (mode st) (getAvailableTimeSlots now (selectedDate st)) (selectedSlot st)\<rparr>"

text \<open>
  Opening the modal (\<open>isOpen\<close> becomes true) is a new render of the mounted component:
  \<^verbatim>\<open>if (!isOpen) return null;\<close> comes after every hook, so the state hooks keep the values
  they have and the initializers do not run again. The properties \<open>initialDate\<close> and
  \<open>initialTime\<close> of that render are read by nothing; the auto-correct effect runs after
  the render.
\<close>

definition openPicker :: "int \<Rightarrow> string option \<Rightarrow> string option \<Rightarrow> PickerState \<Rightarrow> PickerState" where
  "openPicker now initialDate initialTime st = autoCorrect now st"

subsection \<open>Confirming\<close>

text \<open>
  \<^verbatim>\<open>
  const parseTimeSlot = (timeSlot: string) => {
    const [hour24, minute] = timeSlot.split(':').map(Number);
    const hour12 = hour24 === 0 ? 12 : hour24 > 12 ? hour24 - 12 : hour24;
    const period: 'AM' | 'PM' = hour24 >= 12 ? 'PM' : 'AM';
    return { hour24, hour12, minute, period };
  };
  const formatOutput = () => {
    const day = String(selectedDate.getDate()).padStart(2, '0');
    const month = String(selectedDate.getMonth() + 1).padStart(2, '0');
    const year = selectedDate.getFullYear();
    const dateStr = `${year}-${month}-${day}`;
    const timeStr = mode === 'time' ? selectedSlot : '09:00';
    const { hour12, minute, period } = parseTimeSlot(selectedSlot);
    const minuteStr = String(minute).padStart(2, '0');
    let formatted = '';
    if (mode === 'date') {
      formatted = `${day}/${month}/${year}`;
    } else {
      formatted = `${hour12}:${minuteStr} ${period}`;
    }
    return { dateStr, timeStr, formatted };
  };
  const handleConfirm = () => {
    const { dateStr, timeStr, formatted } = formatOutput();
    onConfirm(dateStr, timeStr, formatted);
    onClose();
  };
  ...
  <button onClick={handleConfirm}
    disabled={(mode === 'time' && availableSlots.length === 0) || (mode === 'date' && isPastDate(selectedDate))}>
  \<close>
\<close>

record TimeParts =
  hour24 :: number
  hour12 :: number
  minute :: number
  period :: string

definition parseTimeSlot :: "string \<Rightarrow> TimeParts" where
  "parseTimeSlot timeSlot =
     (let parts = map Number (split CHR '':'' timeSlot);
          h24 = elem parts 0;
          mi = elem parts 1
      in \<lparr>hour24 = h24,
          hour12 = (case h24 of NaN \<Rightarrow> NaN
                    | Val h \<Rightarrow> if h = 0 then Val 12 else if h > 12 then Val (h - 12) else Val h),
          minute = mi,
          period = (case h24 of NaN \<Rightarrow> ''AM'' | Val h \<Rightarrow> if h \<ge> 12 then ''PM'' else ''AM'')\<rparr>)"

record Output =
  dateStr :: string
  timeStr :: string
  formatted :: string

definition formatOutput :: "PickerState \<Rightarrow> Output" where
  "formatOutput st =
     (let day = padStart 2 CHR ''0'' (String (getDate (selectedDate st)));
          month = padStart 2 CHR ''0'' (String (num_add (getMonth (selectedDate st)) (Val 1)));
          year = getFullYear (selectedDate st);
          ds = String year @ ''-'' @ month @ ''-'' @ day;
          ts = (if mode st = TimeMode then selectedSlot st else ''09:00'');
          tp = parseTimeSlot (selectedSlot st);
          minuteStr = padStart 2 CHR ''0'' (String (minute tp))
      in \<lparr>dateStr = ds, timeStr = ts,
          formatted = (if mode st = DateMode then day @ ''/'' @ month @ ''/'' @ String year
                       else String (hour12 tp) @ '':'' @ minuteStr @ '' '' @ period tp)\<rparr>)"

definition okDisabled :: "int \<Rightarrow> PickerState \<Rightarrow> bool" where
  "okDisabled now st =
     ((mode st = TimeMode \<and> length (getAvailableTimeSlots now (selectedDate st)) = 0)
      \<or> (mode st = DateMode \<and> isPastDate now (selectedDate st)))"

text \<open>
  The \<open>disabled\<close> attribute of the OK button is computed when the component renders, from
  the clock at that time (\<open>okDisabled rendered st\<close>). A click on a disabled button delivers
  nothing. A click on an enabled button runs \<open>handleConfirm\<close>, which reads no clock and tests
  nothing: it delivers the output of \<open>formatOutput\<close> through \<open>onConfirm\<close> and closes the
  modal.
\<close>

definition handleConfirm :: "PickerState \<Rightarrow> Output" where
  "handleConfirm st = formatOutput st"

definition clickOK :: "bool \<Rightarrow> PickerState \<Rightarrow> Output option" where
  "clickOK disabled st = (if disabled then None else Some (handleConfirm st))"

section \<open>List adapter: keyboard navigation\<close>

text \<open>
  \<^verbatim>\<open>
  const handleKeyDown = (e: React.KeyboardEvent, currentSlot: string, index: number) => {
    if (e.key === 'ArrowDown' || e.key === 'ArrowUp') {
      e.preventDefault();
      // Skip disabled slots when navigating
      let newIndex = index;
      do {
        newIndex = e.key === 'ArrowDown'
          ? Math.min(newIndex + 1, allSlots.length - 1)
          : Math.max(newIndex - 1, 0);
      } while (disabledSlots.includes(allSlots[newIndex]) && newIndex !== index);
      if (!disabledSlots.includes(allSlots[newIndex])) {
        onSelectSlot(allSlots[newIndex]);
        setTimeout(() => slotRefs.current[newIndex]?.focus(), 0);
      }
    } else if (e.key === 'Enter' && !disabledSlots.includes(currentSlot)) {
      e.preventDefault();
      onSelectSlot(currentSlot);
    }
  };
  \<close>
  The \<open>do ... while\<close> loop has no bound, so it is a partial function: \<open>None\<close> means that
  the loop never leaves. An index outside the array reads \<open>undefined\<close> (\<open>None\<close>), which no
  array of strings includes.
\<close>

datatype Key = ArrowDown | ArrowUp | Enter | OtherKey

definition item_at :: "'a list \<Rightarrow> int \<Rightarrow> 'a option" where
  "item_at xs i = (if 0 \<le> i \<and> i < int (length xs) then Some (xs ! nat i) else None)"

definition array_includes :: "'a list \<Rightarrow> 'a option \<Rightarrow> bool" where
  "array_includes xs v = (case v of None \<Rightarrow> False | Some x \<Rightarrow> x \<in> set xs)"

partial_function (option) skipLoop :: "Key \<Rightarrow> string list \<Rightarrow> string list \<Rightarrow> int \<Rightarrow> int \<Rightarrow> int option" where
  "skipLoop key allSlots disabledSlots index newIndex =
     (let newIndex' = (if key = ArrowDown
                       then min (newIndex + 1) (int (length allSlots) - 1)
                       else max (newIndex - 1) 0)
      in if array_includes disabledSlots (item_at allSlots newIndex') \<and> newIndex' \<noteq> index
         then skipLoop key allSlots disabledSlots index newIndex'
         else Some newIndex')"

declare skipLoop.simps [code]

text \<open>
  What the handler does once it returns: nothing, or a call of \<open>onSelectSlot\<close> with a slot,
  together with the index of the button that takes the focus (arrow keys only).
\<close>

datatype KeyEffect = NoEffect | Select "string option" "int option"

definition handleKeyDown :: "string list \<Rightarrow> string list \<Rightarrow> Key \<Rightarrow> string \<Rightarrow> int \<Rightarrow> KeyEffect option" where
  "handleKeyDown allSlots disabledSlots key currentSlot index =
     (if key = ArrowDown \<or> key = ArrowUp
      then (case skipLoop key allSlots disabledSlots index index of
              None \<Rightarrow> None
            | Some newIndex \<Rightarrow>
                if \<not> array_includes disabledSlots (item_at allSlots newIndex)
                then Some (Select (item_at allSlots newIndex) (Some newIndex))
                else Some NoEffect)
      else if key = Enter \<and> \<not> array_includes disabledSlots (Some currentSlot)
      then Some (Select (Some currentSlot) None)
      else Some NoEffect)"

section \<open>Wheel adapter\<close>

text \<open>
  \<^verbatim>\<open>
  const ITEM_HEIGHT = 44;
  const handleScroll = () => {
    const container = containerRef.current;
    if (!container) return;
    const scrollTop = container.scrollTop;
    const selectedIndex = Math.round(scrollTop / ITEM_HEIGHT);
    const clampedIndex = Math.max(0, Math.min(selectedIndex, items.length - 1));
    if (items[clampedIndex] !== selectedValue) {
      onSelect(items[clampedIndex]);
    }
  };
  const handleScrollEnd = () => {
    const container = containerRef.current;
    if (!container) return;
    const scrollTop = container.scrollTop;
    const selectedIndex = Math.round(scrollTop / ITEM_HEIGHT);
    const clampedIndex = Math.max(0, Math.min(selectedIndex, items.length - 1));
    const snapPosition = clampedIndex * ITEM_HEIGHT;
    container.scrollTo({ top: snapPosition, behavior: 'smooth' });
  };
  \<close>
  The container is its scroll offset when it is mounted and \<open>None\<close> when it is not. The
  scroll offset is a real number; \<open>Math.round\<close> rounds to the nearest integer, halves
  upwards.
\<close>

definition ITEM_HEIGHT :: int where
  "ITEM_HEIGHT = 44"

definition Math_round :: "real \<Rightarrow> int" where
  "Math_round x = \<lfloor>x + 1 / 2\<rfloor>"

definition clampedIndex :: "'a list \<Rightarrow> real \<Rightarrow> int" where
  "clampedIndex items scrollTop =
     (let selectedIndex = Math_round (scrollTop / real_of_int ITEM_HEIGHT)
      in max 0 (min selectedIndex (int (length items) - 1)))"

text \<open>
  The result of \<open>handleScroll\<close> is the argument of the call of \<open>onSelect\<close>, if there is a
  call; the argument is \<open>undefined\<close> (\<open>None\<close>) when the index is outside the array.
\<close>

definition handleScroll :: "'a list \<Rightarrow> 'a \<Rightarrow> real option \<Rightarrow> 'a option option" where
  "handleScroll items selectedValue container =
     (case container of None \<Rightarrow> None
      | Some scrollTop \<Rightarrow>
          if item_at items (clampedIndex items scrollTop) \<noteq> Some selectedValue
          then Some (item_at items (clampedIndex items scrollTop))
          else None)"

text \<open>The result of \<open>handleScrollEnd\<close> is the offset it scrolls to.\<close>

definition handleScrollEnd :: "'a list \<Rightarrow> real option \<Rightarrow> int option" where
  "handleScrollEnd items container =
     (case container of None \<Rightarrow> None
      | Some scrollTop \<Rightarrow> Some (clampedIndex items scrollTop * ITEM_HEIGHT))"

section \<open>Booking wizard\<close>

record Details =
  name :: string
  email :: string
  phone :: string
  company :: string
  brief :: string
  budget :: string

record BookingState =
  serviceType :: string
  packageId :: string
  date :: string
  time :: string
  details :: Details

text \<open>The state of the page; \<open>alerts\<close> counts the alert boxes shown so far.\<close>

record BookPage =
  step :: int
  formData :: BookingState
  submitted :: bool
  showDatePicker :: bool
  showTimePicker :: bool
  dateDisplay :: string
  timeDisplay :: string
  alerts :: nat

definition initialBookPage :: BookPage where
  "initialBookPage =
     \<lparr>step = 1,
      formData = \<lparr>serviceType = [], packageId = [], date = [], time = [],
                  details = \<lparr>name = [], email = [], phone = [], company = [], brief = [],
                             budget = []\<rparr>\<rparr>,
      submitted = False, showDatePicker = False, showTimePicker = False,
      dateDisplay = [], timeDisplay = [], alerts = 0\<rparr>"

text \<open>
  \<^verbatim>\<open>
  const handleNext = () => setStep(p => p + 1);
  const handleBack = () => setStep(p => p - 1);
  const updateField = (field: string, value: any) => {
    setFormData(prev => ({ ...prev, [field]: value }));
  };
  \<close>
  \<open>updateField\<close> is called with the keys \<open>serviceType\<close>, \<open>packageId\<close>, \<open>date\<close> and
  \<open>time\<close> only.
\<close>

datatype Field = ServiceTypeField | PackageIdField | DateField | TimeField

definition handleNext :: "BookPage \<Rightarrow> BookPage" where
  "handleNext s = s\<lparr>step := step s + 1\<rparr>"

definition handleBack :: "BookPage \<Rightarrow> BookPage" where
  "handleBack s = s\<lparr>step := step s - 1\<rparr>"

definition updateField :: "Field \<Rightarrow> string \<Rightarrow> BookPage \<Rightarrow> BookPage" where
  "updateField field v s =
     s\<lparr>formData :=
         (case field of
            ServiceTypeField \<Rightarrow> (formData s)\<lparr>serviceType := v\<rparr>
          | PackageIdField \<Rightarrow> (formData s)\<lparr>packageId := v\<rparr>
          | DateField \<Rightarrow> (formData s)\<lparr>date := v\<rparr>
          | TimeField \<Rightarrow> (formData s)\<lparr>time := v\<rparr>)\<rparr>"

text \<open>
  The buttons of step 1:
  \<^verbatim>\<open>onClick={() => { updateField('serviceType', type); handleNext(); }}\<close>
\<close>

definition chooseService :: "string \<Rightarrow> BookPage \<Rightarrow> BookPage" where
  "chooseService type s = handleNext (updateField ServiceTypeField type s)"

text \<open>
  \<^verbatim>\<open>
  const handleSubmit = async (e: React.FormEvent) => {
    e.preventDefault();
    ...
    const res = await fetch("/api/send-mail", { method: "POST", ...
      body: JSON.stringify({ service: formData.serviceType, date: formData.date, ... }) });
    const data = await res.json();
    if (!data.success) {
      alert(...);
      return;
    }
    setSubmitted(true);
  };
  \<close>
  The transport either fails (\<open>fetch\<close> rejects), or answers with a body that is not JSON
  (\<open>res.json()\<close> rejects), or answers with a JSON object whose \<open>success\<close> field is
  truthy (\<open>Json True\<close>) or not (\<open>Json False\<close>; any other JSON value but \<open>null\<close>
  counts as such an object, its \<open>success\<close> being \<open>undefined\<close>), or answers with the
  JSON value \<open>null\<close>, on which \<open>data.success\<close> throws. The function has no \<open>try\<close>:
  a rejection or an exception leaves it there, before the alert and before any change of
  state.
\<close>

record Payload =
  p_service :: string
  p_date :: string
  p_time :: string
  p_name :: string
  p_email :: string
  p_phone :: string
  p_company :: string
  p_brief :: string
  p_budget :: string

datatype Response = FetchRejected | JsonRejected | JsonNull | Json bool

definition payload :: "BookingState \<Rightarrow> Payload" where
  "payload fd =
     \<lparr>p_service = serviceType fd, p_date = date fd, p_time = time fd,
      p_name = name (details fd), p_email = email (details fd), p_phone = phone (details fd),
      p_company = company (details fd), p_brief = brief (details fd),
      p_budget = budget (details fd)\<rparr>"

text \<open>
  \<open>handleSubmit\<close> sends \<open>payload (formData s)\<close>; its result depends on the state and on
  what the transport answers.
\<close>

definition handleSubmit :: "Response \<Rightarrow> BookPage \<Rightarrow> BookPage" where
  "handleSubmit response s =
     (case response of
        FetchRejected \<Rightarrow> s
      | JsonRejected \<Rightarrow> s
      | JsonNull \<Rightarrow> s
      | Json success \<Rightarrow>
          if \<not> success then s\<lparr>alerts := alerts s + 1\<rparr>
          else s\<lparr>submitted := True\<rparr>)"

section \<open>Theorems\<close>

subsection \<open>Numbers and their strings\<close>

lemma digit_char_props:
  "d < 10 \<Longrightarrow> is_digit (digit_char d) \<and> digit_val (digit_char d) = d \<and> digit_char d \<noteq> CHR ''-'' \<and> digit_char d \<noteq> CHR '':''"
proof -
  have "\<forall>d\<in>set [0..<10]. is_digit (digit_char d) \<and> digit_val (digit_char d) = d
          \<and> digit_char d \<noteq> CHR ''-'' \<and> digit_char d \<noteq> CHR '':''"
    by code_simp
  then show "d < 10 \<Longrightarrow> ?thesis" by simp
qed

lemma digits_of_nat_digits: "list_all is_digit (digits_of_nat n)"
proof (induction n rule: digits_of_nat.induct)
  case (1 n)
  then show ?case
    by (subst digits_of_nat.simps) (simp add: digit_char_props)
qed

lemma digits_of_nat_nonempty: "digits_of_nat n \<noteq> []"
  by (subst digits_of_nat.simps) simp

lemma nat_of_digits_snoc: "nat_of_digits (s @ [c]) = 10 * nat_of_digits s + digit_val c"
  by (simp add: nat_of_digits_def)

lemma nat_of_digits_of_nat: "nat_of_digits (digits_of_nat n) = n"
proof (induction n rule: digits_of_nat.induct)
  case (1 n)
  show ?case
  proof (cases "n < 10")
    case True
    then show ?thesis
      by (subst digits_of_nat.simps) (simp add: nat_of_digits_def digit_char_props)
  next
    case False
    then show ?thesis using 1
      by (subst digits_of_nat.simps) (simp add: nat_of_digits_snoc digit_char_props)
  qed
qed

lemma nat_of_digits_zeros: "nat_of_digits (replicate k CHR ''0'' @ s) = nat_of_digits s"
proof -
  have z: "digit_val CHR ''0'' = 0" by code_simp
  have "foldl (\<lambda>acc ch. 10 * acc + digit_val ch) 0 (replicate k CHR ''0'') = 0"
    by (induction k) (simp_all add: z)
  then show ?thesis by (simp add: nat_of_digits_def)
qed

lemma is_digit_zero: "is_digit CHR ''0''"
  by code_simp

lemma padded_digits: "list_all is_digit (padStart k CHR ''0'' (digits_of_nat n))"
  using digits_of_nat_digits [of n] by (auto simp: padStart_def list_all_iff is_digit_zero)

lemma Number_padStart_digits: "Number (padStart k CHR ''0'' (digits_of_nat n)) = Val (int n)"
proof -
  have "padStart k CHR ''0'' (digits_of_nat n) \<noteq> []"
    by (simp add: padStart_def digits_of_nat_nonempty)
  moreover have "nat_of_digits (padStart k CHR ''0'' (digits_of_nat n)) = n"
    by (simp add: padStart_def nat_of_digits_zeros nat_of_digits_of_nat)
  ultimately show ?thesis by (simp add: Number_def padded_digits)
qed

lemma Number_digits: "Number (digits_of_nat n) = Val (int n)"
  using Number_padStart_digits [of 0 n] by (simp add: padStart_def)

lemma split_no_sep: "c \<notin> set a \<Longrightarrow> split c a = [a]"
  by (induction a) auto

lemma split_append: "c \<notin> set a \<Longrightarrow> split c (a @ c # b) = a # split c b"
  by (induction a) auto

lemma no_sep_in_digits:
  "list_all is_digit s \<Longrightarrow> CHR ''-'' \<notin> set s \<and> CHR '':'' \<notin> set s"
proof -
  have "\<not> is_digit CHR ''-''" "\<not> is_digit CHR '':''" by code_simp+
  then show "list_all is_digit s \<Longrightarrow> ?thesis" by (auto simp: list_all_iff)
qed

subsection \<open>The calendar\<close>

lemma DayFromYear_offset:
  "DayFromYear (1970 + q) = 365 * q + (q + 1) div 4 - (q + 69) div 100 + (q + 369) div 400"
proof -
  have "1970 + q - 1970 = q" "1970 + q - 1969 = q + 1" "1970 + q - 1901 = q + 69"
    "1970 + q - 1601 = q + 369"
    by simp_all
  then show ?thesis unfolding DayFromYear_def by (simp only:)
qed

lemma estimate_nonneg:
  assumes z: "0 \<le> z"
  shows "DayFromYear (yearEstimate z) \<le> z"
proof -
  define q where "q = z div 366"
  have q: "0 \<le> q" "366 * q \<le> z" using z by (simp_all add: q_def)
  define a where "a = (q + 1) div 4"
  define b where "b = (q + 69) div 100"
  define c where "c = (q + 369) div 400"
  have a: "4 * a \<le> q + 1"
    unfolding a_def using mult_div_mod_eq [of 4 "q + 1"] pos_mod_sign [of 4 "q + 1"] by linarith
  have c: "400 * c \<le> q + 369"
    unfolding c_def using mult_div_mod_eq [of 400 "q + 369"] pos_mod_sign [of 400 "q + 369"]
    by linarith
  have b: "0 \<le> b"
    unfolding b_def using q(1) by (simp add: pos_imp_zdiv_nonneg_iff)
  have "a - b + c \<le> q"
  proof (cases "2 \<le> q")
    case True
    then show ?thesis using a b c by linarith
  next
    case False
    then have "q = 0 \<or> q = 1" using q(1) by linarith
    then show ?thesis unfolding a_def b_def c_def by auto
  qed
  then have "DayFromYear (1970 + q) \<le> 366 * q"
    unfolding DayFromYear_offset a_def b_def c_def by linarith
  then show ?thesis using q z by (simp add: yearEstimate_def q_def)
qed

lemma estimate_neg:
  assumes z: "z < 0"
  shows "DayFromYear (yearEstimate z) \<le> z"
proof -
  define q where "q = z div 365"
  have q: "q < 0" "365 * q \<le> z" using z by (simp_all add: q_def div_neg_pos_less0)
  define a where "a = (q + 1) div 4"
  define b where "b = (q + 69) div 100"
  define c where "c = (q + 369) div 400"
  have a: "4 * a \<le> q + 1"
    unfolding a_def using mult_div_mod_eq [of 4 "q + 1"] pos_mod_sign [of 4 "q + 1"] by linarith
  have c: "400 * c \<le> q + 369"
    unfolding c_def using mult_div_mod_eq [of 400 "q + 369"] pos_mod_sign [of 400 "q + 369"]
    by linarith
  have b: "q + 69 < 100 * b + 100"
    unfolding b_def using mult_div_mod_eq [of 100 "q + 69"] pos_mod_bound [of 100 "q + 69"]
    by linarith
  have "a - b + c \<le> 0"
  proof (cases "q \<le> - 2")
    case True
    then show ?thesis using a b c by linarith
  next
    case False
    then have "q = - 1" using q(1) by linarith
    then show ?thesis unfolding a_def b_def c_def by simp
  qed
  then have "DayFromYear (1970 + q) \<le> 365 * q"
    unfolding DayFromYear_offset a_def b_def c_def by linarith
  then show ?thesis using q z by (simp add: yearEstimate_def q_def)
qed

lemma yearSearch_props:
  "DayFromYear y \<le> z \<Longrightarrow>
   y \<le> yearSearch z y \<and> DayFromYear (yearSearch z y) \<le> z \<and> z < DayFromYear (yearSearch z y + 1)"
proof (induction z y rule: yearSearch.induct)
  case (1 z y)
  show ?case
  proof (cases "DayFromYear (y + 1) \<le> z")
    case True
    then show ?thesis using 1 by (subst (1 2 3) yearSearch.simps) auto
  next
    case False
    then show ?thesis using 1 by (subst (1 2 3) yearSearch.simps) auto
  qed
qed

lemma YearFromDay_props:
  "DayFromYear (YearFromDay z) \<le> z" "z < DayFromYear (YearFromDay z + 1)"
  "0 \<le> z \<Longrightarrow> 1970 \<le> YearFromDay z"
proof -
  have e: "DayFromYear (yearEstimate z) \<le> z"
    using estimate_nonneg estimate_neg by (cases "0 \<le> z") auto
  from yearSearch_props [OF e]
  show "DayFromYear (YearFromDay z) \<le> z" "z < DayFromYear (YearFromDay z + 1)"
    by (simp_all add: YearFromDay_def)
  assume "0 \<le> z"
  then have "1970 \<le> yearEstimate z" by (simp add: yearEstimate_def)
  then show "1970 \<le> YearFromDay z"
    using yearSearch_props [OF e] by (simp add: YearFromDay_def)
qed

lemma monthSearch_props:
  "monthSearch k leap dwy \<le> k"
  "0 \<le> dwy \<Longrightarrow> monthStart (int (monthSearch k leap dwy)) leap \<le> dwy"
proof -
  show "monthSearch k leap dwy \<le> k" by (induction k) auto
  have z: "monthStart 0 leap = 0" by (simp add: monthStart_def)
  show "0 \<le> dwy \<Longrightarrow> monthStart (int (monthSearch k leap dwy)) leap \<le> dwy"
    by (induction k) (simp_all add: z del: of_nat_Suc)
qed

lemma MakeDay_civil: "MakeDay (YearFromDay z) (MonthFromDay z) (DateFromDay z) = z"
proof -
  have "monthSearch 11 (InLeapYear (YearFromDay z)) (DayWithinYear z) \<le> 11"
    by (rule monthSearch_props)
  then have m: "0 \<le> MonthFromDay z" "MonthFromDay z < 12" by (simp_all add: MonthFromDay_def)
  then have "MonthFromDay z div 12 = 0" "MonthFromDay z mod 12 = MonthFromDay z" by simp_all
  then show ?thesis
    by (simp add: MakeDay_def DateFromDay_def DayWithinYear_def)
qed

lemma civil_ranges:
  "0 \<le> MonthFromDay z" "MonthFromDay z \<le> 11" "1 \<le> DateFromDay z"
proof -
  have "monthSearch 11 (InLeapYear (YearFromDay z)) (DayWithinYear z) \<le> 11"
    by (rule monthSearch_props)
  then show "0 \<le> MonthFromDay z" "MonthFromDay z \<le> 11" by (simp_all add: MonthFromDay_def)
  have "0 \<le> DayWithinYear z" using YearFromDay_props(1) [of z] by (simp add: DayWithinYear_def)
  then show "1 \<le> DateFromDay z"
    using monthSearch_props(2) [of "DayWithinYear z" 11 "InLeapYear (YearFromDay z)"]
    by (simp add: DateFromDay_def MonthFromDay_def)
qed

subsection \<open>The slot catalog\<close>

lemma getAllTimeSlots_eq:
  "getAllTimeSlots =
    [''09:00'', ''09:30'', ''10:00'', ''10:30'', ''11:00'', ''11:30'', ''12:00'', ''12:30'',
     ''13:00'', ''13:30'', ''14:00'', ''14:30'', ''15:00'', ''15:30'', ''16:00'', ''16:30'',
     ''17:00'', ''17:30'', ''18:00'', ''18:30'', ''19:00'', ''19:30'', ''20:00'', ''20:30'',
     ''21:00'', ''21:30'']"
  by code_simp

lemma catalog_set:
  "set getAllTimeSlots = (\<Union>h\<in>set [9..21]. \<Union>m\<in>set [0, 30]. {slotString h m})"
  by code_simp

lemma catalog_slots:
  "slot \<in> set getAllTimeSlots
   \<longleftrightarrow> (\<exists>h m. 9 \<le> h \<and> h \<le> 21 \<and> (m = 0 \<or> m = 30) \<and> slot = slotString h m)"
  unfolding catalog_set by (simp only: set_upto) auto

text \<open>
  C1. The generator takes no input and returns one fixed list, in increasing order and in
  steps of 30 minutes from 09:00. The list has 26 elements and ends with 21:30, not 25
  elements ending with 21:00: the loop over the hours runs up to and including 21 and
  adds the half-hour slot of every hour, also of the last one.
\<close>

theorem getAllTimeSlots_value:
  "length getAllTimeSlots = 26 \<and> hd getAllTimeSlots = ''09:00''
   \<and> last getAllTimeSlots = ''21:30''
   \<and> map minutesOfSlot getAllTimeSlots = map (\<lambda>i. Val (540 + 30 * int i)) [0..<26]"
  unfolding getAllTimeSlots_eq by code_simp

subsection \<open>The availability filter\<close>

lemma slot_fields:
  assumes "0 \<le> h" "0 \<le> m"
  shows "map Number (split CHR '':'' (slotString h m)) = [Val h, Val m]"
proof -
  let ?H = "padStart 2 CHR ''0'' (digits_of_nat (nat h))"
    and ?M = "padStart 2 CHR ''0'' (digits_of_nat (nat m))"
  have H: "CHR '':'' \<notin> set ?H" using padded_digits no_sep_in_digits by blast
  have M: "CHR '':'' \<notin> set ?M" using padded_digits no_sep_in_digits by blast
  have "split CHR '':'' (?H @ '':'' @ ?M) = [?H, ?M]"
    using split_append [OF H, of ?M] split_no_sep [OF M] by simp
  then show ?thesis
    using assms by (simp add: slotString_def Number_padStart_digits)
qed

lemma minutesOfSlot_slotString:
  "0 \<le> h \<Longrightarrow> 0 \<le> m \<Longrightarrow> minutesOfSlot (slotString h m) = Val (h * 60 + m)"
  by (simp add: minutesOfSlot_def slot_fields elem_def)

lemma available_minutes:
  assumes "s \<in> set (getAvailableTimeSlots now d)"
  shows "\<exists>v. minutesOfSlot s = Val v"
proof -
  from assms have "s \<in> set getAllTimeSlots" by (simp add: getAvailableTimeSlots_def)
  then obtain h m where "9 \<le> h" "m = 0 \<or> m = 30" "s = slotString h m"
    using catalog_slots by blast
  then show ?thesis using minutesOfSlot_slotString [of h m] by auto
qed

lemma isSlotDisabled_today:
  assumes d: "getTime d = Val t" and day: "Day t = Day now"
    and v: "\<bar>now\<bar> \<le> 8640000000000000"
    and h: "0 \<le> h" and m: "0 \<le> m"
  shows "isSlotDisabled now d (slotString h m)
         = (Day now * msPerDay + h * 3600000 + m * 60000 < now)"
proof -
  let ?s = "Day now * msPerDay + h * 3600000 + m * 60000"
  have "(- 8640000000000000) div 86400000 \<le> now div (86400000::int)"
    by (rule zdiv_mono1) (use v in auto)
  then have dl: "- 100000000 \<le> Day now" by (simp add: Day_def msPerDay_def)
  have dis: "isSlotDisabled now d (slotString h m) = num_lt (TimeClip ?s) (Val now)"
    using d day
    by (simp add: isSlotDisabled_def toDateString_def slot_fields [OF h m] elem_def setHours_def)
  show ?thesis
  proof (cases "\<bar>?s\<bar> > 8640000000000000")
    case True
    have "0 \<le> h * 3600000 + m * 60000" using h m by simp
    then have "\<not> ?s < now" using True v dl unfolding msPerDay_def by linarith
    then show ?thesis using True dis by (simp add: TimeClip_def)
  next
    case False
    then show ?thesis using dis by (simp add: TimeClip_def)
  qed
qed

text \<open>
  C2. A slot is never disabled for a date whose calendar day is not the day of \<open>now\<close>
  (an invalid date included). For a date on the day of \<open>now\<close>, the slot \<open>HH:mm\<close> of
  hour \<open>h\<close> and minute \<open>m\<close> (every slot of the catalog is one, by \<open>catalog_slots\<close>)
  is disabled exactly when the instant of that day at \<open>h:m\<close> is strictly before \<open>now\<close>.
  The available slots are the slots of the catalog that are not disabled, in the order of
  the catalog.
\<close>

theorem isSlotDisabled_spec:
  "((\<forall>t. getTime d = Val t \<longrightarrow> Day t \<noteq> Day now) \<longrightarrow> \<not> isSlotDisabled now d slot)
   \<and> (getTime d = Val t \<and> Day t = Day now \<and> \<bar>now\<bar> \<le> 8640000000000000
        \<and> 0 \<le> h \<and> 0 \<le> m
      \<longrightarrow> isSlotDisabled now d (slotString h m)
          = (Day now * msPerDay + h * 3600000 + m * 60000 < now))
   \<and> getAvailableTimeSlots now d
      = filter (\<lambda>s. \<not> isSlotDisabled now d s) getAllTimeSlots"
proof (intro conjI impI)
  assume "\<forall>t. getTime d = Val t \<longrightarrow> Day t \<noteq> Day now"
  then show "\<not> isSlotDisabled now d slot"
    by (cases "getTime d") (auto simp: isSlotDisabled_def toDateString_def)
next
  assume "getTime d = Val t \<and> Day t = Day now \<and> \<bar>now\<bar> \<le> 8640000000000000
        \<and> 0 \<le> h \<and> 0 \<le> m"
  then show "isSlotDisabled now d (slotString h m)
          = (Day now * msPerDay + h * 3600000 + m * 60000 < now)"
    using isSlotDisabled_today by blast
next
  show "getAvailableTimeSlots now d
      = filter (\<lambda>s. \<not> isSlotDisabled now d s) getAllTimeSlots"
    by (simp add: getAvailableTimeSlots_def)
qed

text \<open>
  At 10:15 on 10 March 2025 (day 20157): no slot of the next day is disabled, 10:00 of the
  day is disabled and 10:30 is not, and the available slots are the catalog without its
  first three slots.
\<close>

theorem isSlotDisabled_spec_witness:
  "\<not> isSlotDisabled 1741601700000 (Date (Val 1741651200000)) ''09:00''
   \<and> isSlotDisabled 1741601700000 (Date (Val 1741564800000)) (slotString 10 0)
   \<and> \<not> isSlotDisabled 1741601700000 (Date (Val 1741564800000)) (slotString 10 30)
   \<and> getAvailableTimeSlots 1741601700000 (Date (Val 1741564800000))
      = drop 3 getAllTimeSlots"
proof -
  have a: "\<forall>t. getTime (Date (Val 1741651200000)) = Val t \<longrightarrow> Day t \<noteq> Day 1741601700000"
    by (simp add: Day_def msPerDay_def)
  have b: "getTime (Date (Val 1741564800000)) = Val 1741564800000
           \<and> Day 1741564800000 = Day 1741601700000 \<and> \<bar>1741601700000::int\<bar> \<le> 8640000000000000
           \<and> (0::int) \<le> 10 \<and> (0::int) \<le> 0"
    by (simp add: Day_def msPerDay_def)
  have c: "getTime (Date (Val 1741564800000)) = Val 1741564800000
           \<and> Day 1741564800000 = Day 1741601700000 \<and> \<bar>1741601700000::int\<bar> \<le> 8640000000000000
           \<and> (0::int) \<le> 10 \<and> (0::int) \<le> 30"
    by (simp add: Day_def msPerDay_def)
  have 1: "\<not> isSlotDisabled 1741601700000 (Date (Val 1741651200000)) ''09:00''"
    using isSlotDisabled_spec [of "Date (Val 1741651200000)" 1741601700000 "''09:00''"] a
    by blast
  have 2: "isSlotDisabled 1741601700000 (Date (Val 1741564800000)) (slotString 10 0)"
    using isSlotDisabled_spec
      [of "Date (Val 1741564800000)" 1741601700000 _ 1741564800000 10 0] b
    by (simp add: Day_def msPerDay_def)
  have 3: "\<not> isSlotDisabled 1741601700000 (Date (Val 1741564800000)) (slotString 10 30)"
    using isSlotDisabled_spec
      [of "Date (Val 1741564800000)" 1741601700000 _ 1741564800000 10 30] c
    by (simp add: Day_def msPerDay_def)
  have 4: "filter (\<lambda>s. \<not> isSlotDisabled 1741601700000 (Date (Val 1741564800000)) s)
             getAllTimeSlots = drop 3 getAllTimeSlots"
    by code_simp
  show ?thesis
    using 1 2 3 4 isSlotDisabled_spec [of "Date (Val 1741564800000)" 1741601700000] by simp
qed

subsection \<open>Slot reconciliation\<close>

lemma nearestStep_Val:
  assumes "minutesOfSlot s = Val v"
  shows "nearestStep (Val c) (md, n) s
         = (if (case md of None \<Rightarrow> True | Some b \<Rightarrow> \<bar>v - c\<bar> < b) then (Some \<bar>v - c\<bar>, s) else (md, n))"
  using assms by (simp add: nearestStep_def lt_minDiff_def Let_def)

lemma foldl_nearestStep:
  assumes "\<forall>s\<in>set xs. minutesOfSlot s = Val (f s)" and "xs \<noteq> []"
  shows "\<exists>i<length xs.
           foldl (nearestStep (Val c)) (None, x0) xs = (Some \<bar>f (xs ! i) - c\<bar>, xs ! i)
           \<and> (\<forall>j<length xs. \<bar>f (xs ! i) - c\<bar> \<le> \<bar>f (xs ! j) - c\<bar>)
           \<and> (\<forall>j<i. \<bar>f (xs ! i) - c\<bar> < \<bar>f (xs ! j) - c\<bar>)"
  using assms
proof (induction xs rule: rev_induct)
  case Nil
  then show ?case by simp
next
  case (snoc x xs)
  have mx: "minutesOfSlot x = Val (f x)" using snoc.prems by simp
  show ?case
  proof (cases "xs = []")
    case True
    then show ?thesis using mx by (simp add: nearestStep_Val)
  next
    case False
    then obtain i where i: "i < length xs"
      and res: "foldl (nearestStep (Val c)) (None, x0) xs = (Some \<bar>f (xs ! i) - c\<bar>, xs ! i)"
      and le: "\<forall>j<length xs. \<bar>f (xs ! i) - c\<bar> \<le> \<bar>f (xs ! j) - c\<bar>"
      and lt: "\<forall>j<i. \<bar>f (xs ! i) - c\<bar> < \<bar>f (xs ! j) - c\<bar>"
      using snoc by auto
    show ?thesis
    proof (cases "\<bar>f x - c\<bar> < \<bar>f (xs ! i) - c\<bar>")
      case True
      have "foldl (nearestStep (Val c)) (None, x0) (xs @ [x]) = (Some \<bar>f x - c\<bar>, x)"
        using res True mx by (simp add: nearestStep_Val)
      moreover have "\<forall>j<length (xs @ [x]). \<bar>f x - c\<bar> \<le> \<bar>f ((xs @ [x]) ! j) - c\<bar>"
        using le True by (auto simp: nth_append less_Suc_eq)
      moreover have "\<forall>j<length xs. \<bar>f x - c\<bar> < \<bar>f ((xs @ [x]) ! j) - c\<bar>"
        using le True by (auto simp: nth_append)
      ultimately show ?thesis
        by (intro exI [of _ "length xs"]) simp
    next
      case False
      have "foldl (nearestStep (Val c)) (None, x0) (xs @ [x]) = (Some \<bar>f (xs ! i) - c\<bar>, xs ! i)"
        using res False mx by (simp add: nearestStep_Val)
      moreover have "\<forall>j<length (xs @ [x]). \<bar>f (xs ! i) - c\<bar> \<le> \<bar>f ((xs @ [x]) ! j) - c\<bar>"
        using le False by (auto simp: nth_append less_Suc_eq)
      moreover have "\<forall>j<i. \<bar>f (xs ! i) - c\<bar> < \<bar>f ((xs @ [x]) ! j) - c\<bar>"
        using lt i by (auto simp: nth_append)
      ultimately show ?thesis using i
        by (intro exI [of _ i]) (simp add: nth_append)
    qed
  qed
qed

text \<open>
  C3 (amended). In the time picker, reconciliation leaves a slot that is among the available
  slots as it is; for a slot that is not among them and a non-empty list of available slots
  (all of them with a minute-of-day value), it selects the available slot at the least index
  among those whose minute-of-day value is nearest to the value of the current slot: no
  available slot is nearer, and every earlier one is strictly farther. With 09:00, 09:30 and
  10:00 available and 09:15 selected, the result is 09:00. In the date picker the effect is
  guarded by the mode and leaves every slot as it is.
\<close>

theorem reconcileSlot_spec:
  "(slot \<in> set avail \<longrightarrow> reconcileSlot m avail slot = slot)
   \<and> (avail \<noteq> [] \<and> slot \<notin> set avail \<and> minutesOfSlot slot = Val c
        \<and> (\<forall>s\<in>set avail. minutesOfSlot s = Val (f s))
      \<longrightarrow> (\<exists>i<length avail. reconcileSlot TimeMode avail slot = avail ! i
            \<and> (\<forall>j<length avail. \<bar>f (avail ! i) - c\<bar> \<le> \<bar>f (avail ! j) - c\<bar>)
            \<and> (\<forall>j<i. \<bar>f (avail ! i) - c\<bar> < \<bar>f (avail ! j) - c\<bar>)))
   \<and> reconcileSlot TimeMode [''09:00'', ''09:30'', ''10:00''] ''09:15'' = ''09:00''
   \<and> reconcileSlot DateMode avail slot = slot"
proof (intro conjI impI)
  assume "slot \<in> set avail"
  then show "reconcileSlot m avail slot = slot" by (simp add: reconcileSlot_def)
next
  show "reconcileSlot DateMode avail slot = slot" by (simp add: reconcileSlot_def)
next
  assume a: "avail \<noteq> [] \<and> slot \<notin> set avail \<and> minutesOfSlot slot = Val c
        \<and> (\<forall>s\<in>set avail. minutesOfSlot s = Val (f s))"
  then have r: "reconcileSlot TimeMode avail slot
                = snd (foldl (nearestStep (Val c)) (None, avail ! 0) avail)"
    by (simp add: reconcileSlot_def)
  from a have 1: "\<forall>s\<in>set avail. minutesOfSlot s = Val (f s)" and 2: "avail \<noteq> []" by blast+
  obtain i where "i < length avail"
    and "foldl (nearestStep (Val c)) (None, avail ! 0) avail
         = (Some \<bar>f (avail ! i) - c\<bar>, avail ! i)"
    and "\<forall>j<length avail. \<bar>f (avail ! i) - c\<bar> \<le> \<bar>f (avail ! j) - c\<bar>"
    and "\<forall>j<i. \<bar>f (avail ! i) - c\<bar> < \<bar>f (avail ! j) - c\<bar>"
    using foldl_nearestStep [OF 1 2, of c "avail ! 0"] by blast
  then show "\<exists>i<length avail. reconcileSlot TimeMode avail slot = avail ! i
            \<and> (\<forall>j<length avail. \<bar>f (avail ! i) - c\<bar> \<le> \<bar>f (avail ! j) - c\<bar>)
            \<and> (\<forall>j<i. \<bar>f (avail ! i) - c\<bar> < \<bar>f (avail ! j) - c\<bar>)"
    unfolding r by (intro exI [of _ i]) simp
next
  show "reconcileSlot TimeMode [''09:00'', ''09:30'', ''10:00''] ''09:15'' = ''09:00''"
    by code_simp
qed


text \<open>The example of the claim, and a slot that is available.\<close>

theorem reconcileSlot_spec_witness:
  "reconcileSlot TimeMode [''09:00'', ''09:30'', ''10:00''] ''09:15''
     \<in> set [''09:00'', ''09:30'', ''10:00'']
   \<and> reconcileSlot TimeMode [''09:00'', ''09:30'', ''10:00''] ''09:30'' = ''09:30''"
proof -
  let ?avail = "[''09:00'', ''09:30'', ''10:00'']"
  let ?f = "\<lambda>s. case minutesOfSlot s of Val v \<Rightarrow> v | NaN \<Rightarrow> 0"
  have h: "?avail \<noteq> [] \<and> ''09:15'' \<notin> set ?avail \<and> minutesOfSlot ''09:15'' = Val 555
           \<and> (\<forall>s\<in>set ?avail. minutesOfSlot s = Val (?f s))"
    by code_simp
  have k: "''09:30'' \<in> set ?avail" by simp
  from reconcileSlot_spec [of "''09:15''" ?avail TimeMode 555 ?f] h
  obtain i where "i < length ?avail"
    and "reconcileSlot TimeMode ?avail ''09:15'' = ?avail ! i"
    by blast
  then have "reconcileSlot TimeMode ?avail ''09:15'' \<in> set ?avail"
    by (metis nth_mem)
  moreover have "reconcileSlot TimeMode ?avail ''09:30'' = ''09:30''"
    using reconcileSlot_spec [of "''09:30''" ?avail TimeMode] k by blast
  ultimately show ?thesis by blast
qed

text \<open>
  The claim as stated, for every mode, fails in the date picker: with 09:00, 09:30 and 10:00
  available, the slot 09:15, which is not among them, stays 09:15.
\<close>

theorem reconcileSlot_counterexample:
  "''09:15'' \<notin> set [''09:00'', ''09:30'', ''10:00'']
   \<and> reconcileSlot DateMode [''09:00'', ''09:30'', ''10:00''] ''09:15'' = ''09:15''"
  by (simp add: reconcileSlot_def)

text \<open>
  The effect restores the invariant of the selection state: in the time picker, when the
  selected date has an available slot, the selected slot is an available one afterwards.
\<close>

lemma autoCorrect_available:
  assumes "mode st = TimeMode" and ne: "getAvailableTimeSlots now (selectedDate st) \<noteq> []"
    and c: "minutesOfSlot (selectedSlot st) = Val c"
  shows "selectedSlot (autoCorrect now st) \<in> set (getAvailableTimeSlots now (selectedDate st))"
proof (cases "selectedSlot st \<in> set (getAvailableTimeSlots now (selectedDate st))")
  case True
  then show ?thesis by (simp add: autoCorrect_def reconcileSlot_def)
next
  case False
  let ?avail = "getAvailableTimeSlots now (selectedDate st)"
  let ?f = "\<lambda>s. case minutesOfSlot s of Val v \<Rightarrow> v | NaN \<Rightarrow> 0"
  have "\<forall>s\<in>set ?avail. minutesOfSlot s = Val (?f s)"
    using available_minutes by fastforce
  then obtain i where "i < length ?avail"
    and "foldl (nearestStep (Val c)) (None, ?avail ! 0) ?avail
         = (Some \<bar>?f (?avail ! i) - c\<bar>, ?avail ! i)"
    using foldl_nearestStep [of ?avail ?f c "?avail ! 0"] ne by blast
  then show ?thesis
    using False assms by (simp add: autoCorrect_def reconcileSlot_def)
qed

subsection \<open>The next available date\<close>

lemma scanDays_find:
  "i \<le> 365 \<Longrightarrow>
   scanDays now i d =
     (case find (\<lambda>x. getAvailableTimeSlots now x \<noteq> [])
             (map (\<lambda>k. (nextDay ^^ k) d) [0..<nat (365 - i)]) of
        Some x \<Rightarrow> x | None \<Rightarrow> getTodayLocal now)"
proof (induction now i d rule: scanDays.induct)
  case (1 now i checkDate)
  show ?case
  proof (cases "i < 365")
    case False
    then have "nat (365 - i) = 0" by simp
    then show ?thesis using False by (simp add: scanDays.simps [of now i checkDate])
  next
    case True
    then obtain n where n: "nat (365 - i) = Suc n" and n': "nat (365 - (i + 1)) = n"
      by (cases "nat (365 - i)") auto
    have l: "map (\<lambda>k. (nextDay ^^ k) checkDate) [0..<Suc n]
             = checkDate # map (\<lambda>k. (nextDay ^^ k) (nextDay checkDate)) [0..<n]"
      by (simp add: upt_conv_Cons map_Suc_upt [symmetric] funpow_swap1 del: upt_Suc)
    show ?thesis
    proof (cases "getAvailableTimeSlots now checkDate = []")
      case e: True
      have "scanDays now i checkDate = scanDays now (i + 1) (nextDay checkDate)"
        using True e by (simp add: scanDays.simps [of now i checkDate])
      also have "\<dots> = (case find (\<lambda>x. getAvailableTimeSlots now x \<noteq> [])
             (map (\<lambda>k. (nextDay ^^ k) (nextDay checkDate)) [0..<n]) of
        Some x \<Rightarrow> x | None \<Rightarrow> getTodayLocal now)"
        using "1.IH" [OF True refl] e True n' by simp
      finally show ?thesis unfolding n l using e by simp
    next
      case ne: False
      then show ?thesis unfolding n l using True
        by (simp add: scanDays.simps [of now i checkDate])
    qed
  qed
qed

lemma avail_other_day:
  "toDateString d \<noteq> Some (Day now) \<Longrightarrow> getAvailableTimeSlots now d = getAllTimeSlots"
  by (simp add: getAvailableTimeSlots_def isSlotDisabled_def toDateString_def)

lemma getAllTimeSlots_nonempty: "getAllTimeSlots \<noteq> []"
  by (simp add: getAllTimeSlots_eq)

lemma tomorrow_not_today:
  "toDateString (nextDay (getTodayLocal now)) \<noteq> Some (Day now)"
  by (simp add: nextDay_def getTodayLocal_def setHours_def TimeClip_def toDateString_def
        Day_def msPerDay_def)

text \<open>
  C7. The scan returns the first of the 365 calendar days from today on, today included, that
  has an available slot, and today if there is none. When today has no available slot it
  returns tomorrow, which has one: local midnight of the day after the day of \<open>now\<close>.
\<close>

theorem getNextAvailableDate_spec:
  "getNextAvailableDate now = findNextAvailableDate_spec now
   \<and> (getAvailableTimeSlots now (getTodayLocal now) = []
      \<longrightarrow> getNextAvailableDate now = nextDay (getTodayLocal now)
          \<and> getAvailableTimeSlots now (getNextAvailableDate now) \<noteq> []
          \<and> (\<bar>now\<bar> \<le> 8640000000000000 - 86400000
             \<longrightarrow> getNextAvailableDate now = Date (Val ((Day now + 1) * msPerDay))))"
proof (intro conjI impI)
  show r: "getNextAvailableDate now = findNextAvailableDate_spec now"
    using scanDays_find [of 0 now "getTodayLocal now"]
    by (simp add: getNextAvailableDate_def findNextAvailableDate_spec_def horizon_def
          getTodayLocal_def)
  assume e: "getAvailableTimeSlots now (getTodayLocal now) = []"
  have a: "getAvailableTimeSlots now (nextDay (getTodayLocal now)) \<noteq> []"
    using avail_other_day [OF tomorrow_not_today] getAllTimeSlots_nonempty by simp
  have "scanDays now 0 (getTodayLocal now) = scanDays now 1 (nextDay (getTodayLocal now))"
    using e by (simp add: scanDays.simps [of now 0])
  also have "\<dots> = nextDay (getTodayLocal now)"
    using a by (simp add: scanDays.simps [of now 1])
  finally show n: "getNextAvailableDate now = nextDay (getTodayLocal now)"
    by (simp add: getNextAvailableDate_def getTodayLocal_def)
  show "getAvailableTimeSlots now (getNextAvailableDate now) \<noteq> []"
    using a n by simp
  assume v: "\<bar>now\<bar> \<le> 8640000000000000 - 86400000"
  have "(- 8640000000000000) div 86400000 \<le> now div (86400000::int)"
    by (rule zdiv_mono1) (use v in auto)
  moreover have "now div (86400000::int) \<le> (8640000000000000 - 86400000) div 86400000"
    by (rule zdiv_mono1) (use v in auto)
  ultimately have "- 100000000 \<le> Day now" "Day now \<le> 99999999"
    by (simp_all add: Day_def msPerDay_def)
  then have "\<not> 8640000000000000 < \<bar>Day now * 86400000\<bar>"
    and "\<not> 8640000000000000 < \<bar>Day now * 86400000 + 86400000\<bar>"
    by linarith+
  then show "getNextAvailableDate now = Date (Val ((Day now + 1) * msPerDay))"
    unfolding n
    by (simp add: nextDay_def getTodayLocal_def setHours_def TimeClip_def msPerDay_def
          distrib_right)
qed

text \<open>At 22:00 on day 20157 every slot of the day has passed; the scan returns day 20158.\<close>

theorem getNextAvailableDate_spec_witness:
  "getAvailableTimeSlots 1741644000000 (getTodayLocal 1741644000000) = []
   \<and> getNextAvailableDate 1741644000000 = Date (Val 1741651200000)"
proof -
  have e: "getAvailableTimeSlots 1741644000000 (getTodayLocal 1741644000000) = []"
    by code_simp
  have v: "\<bar>1741644000000::int\<bar> \<le> 8640000000000000 - 86400000" by simp
  have "getNextAvailableDate 1741644000000 = Date (Val ((Day 1741644000000 + 1) * msPerDay))"
    using getNextAvailableDate_spec [of 1741644000000] e v by blast
  then show ?thesis using e by (simp add: Day_def msPerDay_def)
qed

subsection \<open>Seeding the selected date\<close>

lemma parseInitialDate_ymd:
  assumes "0 \<le> y" "0 \<le> m" "0 \<le> d"
  shows "parseInitialDate (String (Val y) @ ''-'' @ padStart 2 CHR ''0'' (String (Val m))
                            @ ''-'' @ padStart 2 CHR ''0'' (String (Val d)))
         = newDate (Val y) (Val (m - 1)) (Val d)"
proof -
  let ?Y = "digits_of_nat (nat y)" and ?M = "padStart 2 CHR ''0'' (digits_of_nat (nat m))"
    and ?D = "padStart 2 CHR ''0'' (digits_of_nat (nat d))"
  have Y: "CHR ''-'' \<notin> set ?Y" using digits_of_nat_digits no_sep_in_digits by blast
  have M: "CHR ''-'' \<notin> set ?M" using padded_digits no_sep_in_digits by blast
  have D: "CHR ''-'' \<notin> set ?D" using padded_digits no_sep_in_digits by blast
  have "split CHR ''-'' (?Y @ ''-'' @ ?M @ ''-'' @ ?D) = [?Y, ?M, ?D]"
    using split_append [OF Y, of "?M @ ''-'' @ ?D"] split_append [OF M, of ?D] split_no_sep [OF D]
    by simp
  then show ?thesis
    using assms by (simp add: parseInitialDate_def Number_padStart_digits Number_digits elem_def)
qed


lemma stripTime_getTodayLocal: "stripTime (getTodayLocal now) = getTodayLocal now"
  by (simp add: stripTime_def getTodayLocal_def setHours_def TimeClip_def Day_def msPerDay_def)

lemma not_past_today: "\<not> isPastDate now (getTodayLocal now)"
  by (cases "getTime (getTodayLocal now)") (simp_all add: isPastDate_def stripTime_getTodayLocal)

text \<open>What the initializer of the selected date returns.\<close>

lemma initSelectedDate_cases:
  "(\<not> truthy init \<longrightarrow> initSelectedDate now init = getTodayLocal now)
   \<and> (0 \<le> y \<and> 0 \<le> m \<and> 0 \<le> d
        \<and> init = Some (String (Val y) @ ''-'' @ padStart 2 CHR ''0'' (String (Val m))
                          @ ''-'' @ padStart 2 CHR ''0'' (String (Val d)))
      \<longrightarrow> initSelectedDate now init
          = (if isPastDate now (newDate (Val y) (Val (m - 1)) (Val d))
             then getTodayLocal now
             else newDate (Val y) (Val (m - 1)) (Val d)))
   \<and> \<not> isPastDate now (initSelectedDate now init)"
proof (intro conjI impI)
  assume "\<not> truthy init"
  then show "initSelectedDate now init = getTodayLocal now"
    by (simp add: initSelectedDate_def)
next
  assume a: "0 \<le> y \<and> 0 \<le> m \<and> 0 \<le> d
        \<and> init = Some (String (Val y) @ ''-'' @ padStart 2 CHR ''0'' (String (Val m))
                          @ ''-'' @ padStart 2 CHR ''0'' (String (Val d)))"
  then have p: "parseInitialDate (the init) = newDate (Val y) (Val (m - 1)) (Val d)"
    using parseInitialDate_ymd [of y m d] by simp
  have "truthy init" using a by (simp add: truthy_def)
  then show "initSelectedDate now init
          = (if isPastDate now (newDate (Val y) (Val (m - 1)) (Val d))
             then getTodayLocal now
             else newDate (Val y) (Val (m - 1)) (Val d))"
    by (simp add: initSelectedDate_def p)
next
  show "\<not> isPastDate now (initSelectedDate now init)"
    using not_past_today by (simp add: initSelectedDate_def Let_def)
qed

lemma today_is_valid:
  assumes "getAvailableTimeSlots now (getTodayLocal now) = []"
  shows "toDateString (getTodayLocal now) = Some (Day now)"
proof (rule ccontr)
  assume "toDateString (getTodayLocal now) \<noteq> Some (Day now)"
  then have "getAvailableTimeSlots now (getTodayLocal now) = getAllTimeSlots"
    by (rule avail_other_day)
  then show False using assms getAllTimeSlots_nonempty by simp
qed

lemma scan_tomorrow:
  assumes e: "getAvailableTimeSlots now (getTodayLocal now) = []"
  shows "getNextAvailableDate now = nextDay (getTodayLocal now)"
proof -
  have a: "getAvailableTimeSlots now (nextDay (getTodayLocal now)) \<noteq> []"
    using avail_other_day [OF tomorrow_not_today] getAllTimeSlots_nonempty by simp
  have "scanDays now 0 (getTodayLocal now) = scanDays now 1 (nextDay (getTodayLocal now))"
    using e by (simp add: scanDays.simps [of now 0])
  also have "\<dots> = nextDay (getTodayLocal now)"
    using a by (simp add: scanDays.simps [of now 1])
  finally show ?thesis
    by (simp add: getNextAvailableDate_def getTodayLocal_def)
qed

text \<open>
  C4. The selected date is seeded once, when the modal is mounted, from the initial date of
  that moment; opening the modal later seeds nothing, whatever the initial date is then. So a
  modal mounted without an initial date shows the day of its mounting when it is opened, also
  when a date that is not past is supplied at the opening. The seed without an initial date
  is today even when today has no available slot left: the scan for the next available date,
  which would return tomorrow, is not used.
\<close>

theorem openPicker_keeps_mount_seed:
  "selectedDate (openPicker now2 initialDate2 initialTime2
                   (mountPicker now m initialDate initialTime))
     = initSelectedDate now initialDate
   \<and> (\<not> truthy initialDate \<longrightarrow> initSelectedDate now initialDate = getTodayLocal now)
   \<and> (\<not> truthy initialDate \<and> getAvailableTimeSlots now (getTodayLocal now) = []
      \<longrightarrow> getNextAvailableDate now = nextDay (getTodayLocal now)
          \<and> selectedDate (mountPicker now m initialDate initialTime)
              \<noteq> getNextAvailableDate now)"
proof (intro conjI impI)
  show "selectedDate (openPicker now2 initialDate2 initialTime2
                   (mountPicker now m initialDate initialTime))
     = initSelectedDate now initialDate"
    by (simp add: openPicker_def autoCorrect_def mountPicker_def Let_def)
next
  assume "\<not> truthy initialDate"
  then show "initSelectedDate now initialDate = getTodayLocal now"
    by (simp add: initSelectedDate_def)
next
  assume a: "\<not> truthy initialDate \<and> getAvailableTimeSlots now (getTodayLocal now) = []"
  then show n: "getNextAvailableDate now = nextDay (getTodayLocal now)"
    using scan_tomorrow by blast
  have "toDateString (getTodayLocal now) = Some (Day now)"
    using a today_is_valid by blast
  then have "nextDay (getTodayLocal now) \<noteq> getTodayLocal now"
    using tomorrow_not_today [of now] by auto
  then show "selectedDate (mountPicker now m initialDate initialTime)
              \<noteq> getNextAvailableDate now"
    using a n by (simp add: mountPicker_def Let_def initSelectedDate_def)
qed

text \<open>
  The time picker is mounted at 10:15 on 10 March 2025 with the empty initial date and then
  opened with the initial date 2025-03-12, which is not past: the selected date is 10 March.
  Mounted at 22:00 without an initial date, the selected date is 10 March, which has no
  available slot, and the next available date is 11 March. Mounted with the malformed
  initial date \<open>abc\<close>, the selected date is an invalid date.
\<close>

theorem openPicker_keeps_mount_seed_witness:
  "selectedDate (openPicker 1741601700000 (Some ''2025-03-12'') (Some [])
                   (mountPicker 1741601700000 TimeMode (Some []) (Some [])))
     = Date (Val 1741564800000)
   \<and> \<not> isPastDate 1741601700000 (parseInitialDate ''2025-03-12'')
   \<and> parseInitialDate ''2025-03-12'' = Date (Val 1741737600000)
   \<and> selectedDate (mountPicker 1741644000000 DateMode (Some []) (Some []))
       = Date (Val 1741564800000)
   \<and> getAvailableTimeSlots 1741644000000 (Date (Val 1741564800000)) = []
   \<and> getNextAvailableDate 1741644000000 = Date (Val 1741651200000)
   \<and> selectedDate (mountPicker 1741601700000 DateMode (Some ''abc'') (Some [])) = Date NaN"
proof -
  have n: "\<not> truthy (Some [])" by (simp add: truthy_def)
  have t1: "getTodayLocal 1741601700000 = Date (Val 1741564800000)" by code_simp
  have t2: "getTodayLocal 1741644000000 = Date (Val 1741564800000)" by code_simp
  have e: "getAvailableTimeSlots 1741644000000 (getTodayLocal 1741644000000) = []"
    by code_simp
  have x: "nextDay (getTodayLocal 1741644000000) = Date (Val 1741651200000)" by code_simp
  have 1: "selectedDate (openPicker 1741601700000 (Some ''2025-03-12'') (Some [])
                   (mountPicker 1741601700000 TimeMode (Some []) (Some [])))
     = Date (Val 1741564800000)"
    using openPicker_keeps_mount_seed
      [of 1741601700000 "Some ''2025-03-12''" "Some []" 1741601700000 TimeMode "Some []" "Some []"]
      n t1
    by simp
  have 2: "\<not> isPastDate 1741601700000 (parseInitialDate ''2025-03-12'')
     \<and> parseInitialDate ''2025-03-12'' = Date (Val 1741737600000)"
    by code_simp
  have 3: "selectedDate (mountPicker 1741644000000 DateMode (Some []) (Some []))
       = Date (Val 1741564800000)"
    using n t2 by (simp add: mountPicker_def Let_def initSelectedDate_def)
  have 4: "getNextAvailableDate 1741644000000 = Date (Val 1741651200000)"
    using openPicker_keeps_mount_seed
      [of 1741644000000 None None 1741644000000 DateMode "Some []" "Some []"] n e x
    by simp
  have 5: "selectedDate (mountPicker 1741601700000 DateMode (Some ''abc'') (Some [])) = Date NaN"
    by code_simp
  have 6: "getAvailableTimeSlots 1741644000000 (Date (Val 1741564800000)) = []"
    using e t2 by simp
  show ?thesis using 1 2 3 4 5 6 by blast
qed

subsection \<open>Keyboard navigation in the list adapter\<close>

lemma skipLoop_up_stuck:
  assumes i: "0 < index"
    and dis: "\<forall>j. 0 \<le> j \<and> j < index \<longrightarrow> array_includes disabledSlots (item_at allSlots j)"
    and n: "0 \<le> n" "n \<le> index"
  shows "skipLoop ArrowUp allSlots disabledSlots index n = None"
proof -
  define P where "P = (\<lambda>(k::Key) (a::string list) (ds::string list) (ix::int) (n::int) (y::int).
     \<not> (k = ArrowUp \<and> a = allSlots \<and> ds = disabledSlots \<and> ix = index \<and> 0 \<le> n \<and> n \<le> index))"
  have "P k a ds ix n y" if "skipLoop k a ds ix n = Some y" for k a ds ix n y
  proof (rule skipLoop.raw_induct [where P = P, OF _ that])
    fix f k a ds ix n y
    assume IH: "\<And>k a ds ix n y. f k a ds ix n = Some (y::int) \<Longrightarrow> P k a ds ix n y"
    assume body: "(let newIndex' = if k = ArrowDown then min (n + 1) (int (length a) - 1)
                                   else max (n - 1) 0
                   in if array_includes ds (item_at a newIndex') \<and> newIndex' \<noteq> ix
                      then f k a ds ix newIndex' else Some newIndex') = Some y"
    show "P k a ds ix n y"
      unfolding P_def
    proof
      assume s: "k = ArrowUp \<and> a = allSlots \<and> ds = disabledSlots \<and> ix = index \<and> 0 \<le> n \<and> n \<le> index"
      let ?n' = "max (n - 1) 0"
      have b: "0 \<le> ?n'" "?n' < index" using s i by auto
      then have "array_includes disabledSlots (item_at allSlots ?n')" using dis by blast
      then have "f k a ds ix ?n' = Some y" using body s b by (simp add: Let_def)
      then have "P k a ds ix ?n' y" by (rule IH)
      then show False using s b by (simp add: P_def)
    qed
  qed
  then have "skipLoop ArrowUp allSlots disabledSlots index n \<noteq> Some y" for y
    using n unfolding P_def by blast
  then show ?thesis by (cases "skipLoop ArrowUp allSlots disabledSlots index n") auto
qed

lemma skipLoop_down_stuck:
  assumes i: "index < int (length allSlots) - 1"
    and dis: "\<forall>j. index < j \<and> j < int (length allSlots)
                \<longrightarrow> array_includes disabledSlots (item_at allSlots j)"
    and n: "index \<le> n" "n < int (length allSlots)"
  shows "skipLoop ArrowDown allSlots disabledSlots index n = None"
proof -
  define P where "P = (\<lambda>(k::Key) (a::string list) (ds::string list) (ix::int) (n::int) (y::int).
     \<not> (k = ArrowDown \<and> a = allSlots \<and> ds = disabledSlots \<and> ix = index \<and> index \<le> n
         \<and> n < int (length allSlots)))"
  have "P k a ds ix n y" if "skipLoop k a ds ix n = Some y" for k a ds ix n y
  proof (rule skipLoop.raw_induct [where P = P, OF _ that])
    fix f k a ds ix n y
    assume IH: "\<And>k a ds ix n y. f k a ds ix n = Some (y::int) \<Longrightarrow> P k a ds ix n y"
    assume body: "(let newIndex' = if k = ArrowDown then min (n + 1) (int (length a) - 1)
                                   else max (n - 1) 0
                   in if array_includes ds (item_at a newIndex') \<and> newIndex' \<noteq> ix
                      then f k a ds ix newIndex' else Some newIndex') = Some y"
    show "P k a ds ix n y"
      unfolding P_def
    proof
      assume s: "k = ArrowDown \<and> a = allSlots \<and> ds = disabledSlots \<and> ix = index \<and> index \<le> n
         \<and> n < int (length allSlots)"
      let ?n' = "min (n + 1) (int (length allSlots) - 1)"
      have b: "index < ?n'" "?n' < int (length allSlots)" using s i by auto
      then have "array_includes disabledSlots (item_at allSlots ?n')" using dis by blast
      then have "f k a ds ix ?n' = Some y" using body s b by (simp add: Let_def)
      then have "P k a ds ix ?n' y" by (rule IH)
      then show False using s b by (simp add: P_def)
    qed
  qed
  then have "skipLoop ArrowDown allSlots disabledSlots index n \<noteq> Some y" for y
    using n unfolding P_def by blast
  then show ?thesis by (cases "skipLoop ArrowDown allSlots disabledSlots index n") auto
qed

lemma skipLoop_up_finds:
  assumes k: "0 \<le> k" "\<not> array_includes disabledSlots (item_at allSlots k)"
    and dis: "\<forall>j. k < j \<and> j < index \<longrightarrow> array_includes disabledSlots (item_at allSlots j)"
  shows "k < n \<Longrightarrow> n \<le> index \<Longrightarrow> skipLoop ArrowUp allSlots disabledSlots index n = Some k"
proof (induction "nat (n - k)" arbitrary: n)
  case 0
  then show ?case by simp
next
  case (Suc x)
  have m: "max (n - 1) 0 = n - 1" using Suc.prems k by simp
  show ?case
  proof (cases "n - 1 = k")
    case True
    then show ?thesis using k m by (subst skipLoop.simps) (simp add: Let_def)
  next
    case False
    then have b: "k < n - 1" "n - 1 < index" using Suc.prems by auto
    then have "array_includes disabledSlots (item_at allSlots (n - 1))" using dis by blast
    moreover have "skipLoop ArrowUp allSlots disabledSlots index (n - 1) = Some k"
      using Suc.hyps b by (intro Suc.hyps(1)) auto
    ultimately show ?thesis using b m by (subst skipLoop.simps) (simp add: Let_def)
  qed
qed

lemma skipLoop_down_finds:
  assumes k: "k < int (length allSlots)" "\<not> array_includes disabledSlots (item_at allSlots k)"
    and dis: "\<forall>j. index < j \<and> j < k \<longrightarrow> array_includes disabledSlots (item_at allSlots j)"
  shows "index \<le> n \<Longrightarrow> n < k \<Longrightarrow> skipLoop ArrowDown allSlots disabledSlots index n = Some k"
proof (induction "nat (k - n)" arbitrary: n)
  case 0
  then show ?case by simp
next
  case (Suc x)
  have m: "min (n + 1) (int (length allSlots) - 1) = n + 1" using Suc.prems k by simp
  show ?case
  proof (cases "n + 1 = k")
    case True
    then show ?thesis using k m by (subst skipLoop.simps) (simp add: Let_def)
  next
    case False
    then have b: "index < n + 1" "n + 1 < k" using Suc.prems by auto
    then have "array_includes disabledSlots (item_at allSlots (n + 1))" using dis by blast
    moreover have "skipLoop ArrowDown allSlots disabledSlots index (n + 1) = Some k"
      using Suc.hyps b by (intro Suc.hyps(1)) auto
    ultimately show ?thesis using b m by (subst skipLoop.simps) (simp add: Let_def)
  qed
qed

text \<open>
  Where the handler does return: an arrow key selects the nearest enabled slot in its
  direction, if there is one.
\<close>

lemma handleKeyDown_moves:
  "0 \<le> k \<Longrightarrow> k < index \<Longrightarrow> \<not> array_includes disabledSlots (item_at allSlots k) \<Longrightarrow>
   \<forall>j. k < j \<and> j < index \<longrightarrow> array_includes disabledSlots (item_at allSlots j) \<Longrightarrow>
   handleKeyDown allSlots disabledSlots ArrowUp currentSlot index
     = Some (Select (item_at allSlots k) (Some k))"
  "index < k \<Longrightarrow> k < int (length allSlots) \<Longrightarrow>
   \<not> array_includes disabledSlots (item_at allSlots k) \<Longrightarrow>
   \<forall>j. index < j \<and> j < k \<longrightarrow> array_includes disabledSlots (item_at allSlots j) \<Longrightarrow>
   handleKeyDown allSlots disabledSlots ArrowDown currentSlot index
     = Some (Select (item_at allSlots k) (Some k))"
  using skipLoop_up_finds [of k disabledSlots allSlots index index]
    skipLoop_down_finds [of k allSlots disabledSlots index index]
  by (simp_all add: handleKeyDown_def)

text \<open>At the first and at the last slot the arrow key that leads outwards selects the slot itself.\<close>

lemma handleKeyDown_boundary:
  "allSlots \<noteq> [] \<Longrightarrow> \<not> array_includes disabledSlots (item_at allSlots 0) \<Longrightarrow>
   handleKeyDown allSlots disabledSlots ArrowUp currentSlot 0
     = Some (Select (item_at allSlots 0) (Some 0))"
  "allSlots \<noteq> [] \<Longrightarrow> \<not> array_includes disabledSlots (item_at allSlots (int (length allSlots) - 1)) \<Longrightarrow>
   handleKeyDown allSlots disabledSlots ArrowDown currentSlot (int (length allSlots) - 1)
     = Some (Select (item_at allSlots (int (length allSlots) - 1)) (Some (int (length allSlots) - 1)))"
  by (simp_all add: handleKeyDown_def skipLoop.simps Let_def)

text \<open>
  C5. The key handler does not return for every input. With the arrow-up key on a slot that
  is not the first one, when every slot before it is disabled, the loop reaches index 0 and
  stays there: the slot at index 0 is disabled and 0 is not the starting index, so the
  condition of the loop never becomes false. The same holds for the arrow-down key when every
  slot after the starting one is disabled. The handler neither terminates nor leaves the
  focus where it is.
\<close>

theorem handleKeyDown_diverges:
  "(0 < index
      \<and> (\<forall>j. 0 \<le> j \<and> j < index \<longrightarrow> array_includes disabledSlots (item_at allSlots j))
    \<longrightarrow> handleKeyDown allSlots disabledSlots ArrowUp currentSlot index = None)
   \<and> (0 \<le> index \<and> index < int (length allSlots) - 1
      \<and> (\<forall>j. index < j \<and> j < int (length allSlots)
             \<longrightarrow> array_includes disabledSlots (item_at allSlots j))
    \<longrightarrow> handleKeyDown allSlots disabledSlots ArrowDown currentSlot index = None)"
  using skipLoop_up_stuck [of index disabledSlots allSlots index]
    skipLoop_down_stuck [of index allSlots disabledSlots index]
  by (simp add: handleKeyDown_def)

text \<open>
  Between 09:00 and 09:30 only the slot 09:00 is disabled; the arrow-up key on 09:30
  (index 1) never returns.
\<close>

theorem handleKeyDown_diverges_witness:
  "handleKeyDown getAllTimeSlots [''09:00''] ArrowUp ''09:30'' 1 = None"
proof -
  have "\<forall>j::int. 0 \<le> j \<and> j < 1 \<longrightarrow> array_includes [''09:00''] (item_at getAllTimeSlots j)"
  proof (intro allI impI)
    fix j :: int assume "0 \<le> j \<and> j < 1"
    then have "j = 0" by simp
    then show "array_includes [''09:00''] (item_at getAllTimeSlots j)"
      by (simp add: getAllTimeSlots_eq item_at_def array_includes_def)
  qed
  then show ?thesis
    using handleKeyDown_diverges [of 1 "[''09:00'']" getAllTimeSlots "''09:30''"] by simp
qed

subsection \<open>Confirming a selection\<close>

lemma Day_bounds:
  assumes "\<bar>t\<bar> \<le> 8640000000000000"
  shows "- 100000000 \<le> Day t" "Day t \<le> 100000000"
proof -
  have "(- 8640000000000000) div 86400000 \<le> t div (86400000::int)"
    by (rule zdiv_mono1) (use assms in auto)
  moreover have "t div (86400000::int) \<le> 8640000000000000 div 86400000"
    by (rule zdiv_mono1) (use assms in auto)
  ultimately show "- 100000000 \<le> Day t" "Day t \<le> 100000000"
    by (simp_all add: Day_def msPerDay_def)
qed

lemma stripTime_valid:
  assumes "\<bar>t\<bar> \<le> 8640000000000000"
  shows "stripTime (Date (Val t)) = Date (Val (Day t * msPerDay))"
proof -
  have "\<not> 8640000000000000 < \<bar>Day t * 86400000\<bar>"
    using Day_bounds [OF assms] by linarith
  then show ?thesis
    by (simp add: stripTime_def setHours_def TimeClip_def msPerDay_def)
qed

lemma isPastDate_iff:
  assumes "\<bar>t\<bar> \<le> 8640000000000000" "\<bar>now\<bar> \<le> 8640000000000000"
  shows "isPastDate now (Date (Val t)) \<longleftrightarrow> Day t < Day now"
  using stripTime_valid [OF assms(1)] stripTime_valid [OF assms(2)]
  by (simp add: isPastDate_def getTodayLocal_def stripTime_def msPerDay_def)

lemma formatOutput_dateStr:
  assumes "selectedDate st = Date (Val t)"
  shows "dateStr (formatOutput st)
         = String (Val (YearFromDay (Day t))) @ ''-''
           @ padStart 2 CHR ''0'' (String (Val (MonthFromDay (Day t) + 1))) @ ''-''
           @ padStart 2 CHR ''0'' (String (Val (DateFromDay (Day t))))"
  using assms by (simp add: formatOutput_def Let_def getFullYear_def getMonth_def getDate_def)

text \<open>
  The date string of a day from 1970 on is read back, by the parser of the initial date, as
  local midnight of that day.
\<close>

lemma dateStr_parses:
  assumes t: "\<bar>t\<bar> \<le> 8640000000000000" and z: "0 \<le> Day t"
  shows "parseInitialDate
           (String (Val (YearFromDay (Day t))) @ ''-''
            @ padStart 2 CHR ''0'' (String (Val (MonthFromDay (Day t) + 1))) @ ''-''
            @ padStart 2 CHR ''0'' (String (Val (DateFromDay (Day t)))))
         = Date (Val (Day t * msPerDay))"
proof -
  let ?Y = "YearFromDay (Day t)" and ?M = "MonthFromDay (Day t)" and ?D = "DateFromDay (Day t)"
  have Y: "1970 \<le> ?Y" using YearFromDay_props(3) [OF z] .
  have M: "0 \<le> ?M + 1" using civil_ranges(1) [of "Day t"] by simp
  have D: "0 \<le> ?D" using civil_ranges(3) [of "Day t"] by simp
  have "0 \<le> ?Y" using Y by simp
  from parseInitialDate_ymd [OF this M D]
  have "parseInitialDate
           (String (Val ?Y) @ ''-'' @ padStart 2 CHR ''0'' (String (Val (?M + 1))) @ ''-''
            @ padStart 2 CHR ''0'' (String (Val ?D)))
        = newDate (Val ?Y) (Val ?M) (Val ?D)"
    by simp
  also have "\<dots> = Date (TimeClip (Day t * msPerDay))"
    using Y by (simp add: newDate_def MakeDay_civil)
  also have "\<dots> = Date (Val (Day t * msPerDay))"
  proof -
    have "\<not> 8640000000000000 < \<bar>Day t * 86400000\<bar>"
      using Day_bounds [OF t] by linarith
    then show ?thesis by (simp add: TimeClip_def msPerDay_def)
  qed
  finally show ?thesis .
qed

text \<open>
  C9 (amended). The OK button is disabled in a render exactly when, by the clock of that
  render, the modal is in time mode and the selected date has no available slot, or in date
  mode and the selected date is a past date; a click on a disabled button delivers nothing.
  Hence a value delivered in date mode for a valid selected date (with the clock at 1970 or
  later) is the \<open>YYYY-MM-DD\<close> string of the selected date, which reads back as local midnight
  of that day, and that day was not past at the last render. In time mode a click only
  delivers the selected slot, and only when the selected date had an available slot at the
  last render.
\<close>

theorem okDisabled_spec:
  "okDisabled rendered st
     = ((mode st = TimeMode \<and> getAvailableTimeSlots rendered (selectedDate st) = [])
        \<or> (mode st = DateMode \<and> isPastDate rendered (selectedDate st)))
   \<and> clickOK True st = None
   \<and> (clickOK (okDisabled rendered st) st = Some out \<and> mode st = DateMode
        \<and> selectedDate st = Date (Val t) \<and> \<bar>t\<bar> \<le> 8640000000000000
        \<and> 0 \<le> rendered \<and> rendered \<le> 8640000000000000
      \<longrightarrow> Day rendered \<le> Day t
          \<and> dateStr out
              = String (Val (YearFromDay (Day t))) @ ''-''
                @ padStart 2 CHR ''0'' (String (Val (MonthFromDay (Day t) + 1))) @ ''-''
                @ padStart 2 CHR ''0'' (String (Val (DateFromDay (Day t))))
          \<and> parseInitialDate (dateStr out) = Date (Val (Day t * msPerDay))
          \<and> timeStr out = ''09:00''
          \<and> formatted out
              = padStart 2 CHR ''0'' (String (Val (DateFromDay (Day t)))) @ ''/''
                @ padStart 2 CHR ''0'' (String (Val (MonthFromDay (Day t) + 1))) @ ''/''
                @ String (Val (YearFromDay (Day t))))
   \<and> (clickOK (okDisabled rendered st) st = Some out \<and> mode st = TimeMode
      \<longrightarrow> timeStr out = selectedSlot st
          \<and> getAvailableTimeSlots rendered (selectedDate st) \<noteq> [])"
proof (intro conjI impI)
  show "okDisabled rendered st
     = ((mode st = TimeMode \<and> getAvailableTimeSlots rendered (selectedDate st) = [])
        \<or> (mode st = DateMode \<and> isPastDate rendered (selectedDate st)))"
    by (simp add: okDisabled_def)
next
  show "clickOK True st = None" by (simp add: clickOK_def)
next
  assume a: "clickOK (okDisabled rendered st) st = Some out \<and> mode st = DateMode
        \<and> selectedDate st = Date (Val t) \<and> \<bar>t\<bar> \<le> 8640000000000000
        \<and> 0 \<le> rendered \<and> rendered \<le> 8640000000000000"
  then have out: "out = formatOutput st" and en: "\<not> okDisabled rendered st"
    by (auto simp: clickOK_def handleConfirm_def split: if_splits)
  from a have r: "\<bar>rendered\<bar> \<le> 8640000000000000" by simp
  have "\<not> isPastDate rendered (Date (Val t))"
    using en a by (simp add: okDisabled_def)
  then show d: "Day rendered \<le> Day t"
    using a r isPastDate_iff [of t rendered] by simp
  have "0 \<le> Day rendered" using a by (simp add: Day_def msPerDay_def pos_imp_zdiv_nonneg_iff)
  then have z: "0 \<le> Day t" using d by simp
  show s: "dateStr out
              = String (Val (YearFromDay (Day t))) @ ''-''
                @ padStart 2 CHR ''0'' (String (Val (MonthFromDay (Day t) + 1))) @ ''-''
                @ padStart 2 CHR ''0'' (String (Val (DateFromDay (Day t))))"
    using a out formatOutput_dateStr [of st t] by simp
  show "parseInitialDate (dateStr out) = Date (Val (Day t * msPerDay))"
    unfolding s using a z dateStr_parses [of t] by blast
  show "timeStr out = ''09:00''"
    using a out by (simp add: formatOutput_def Let_def)
  show "formatted out
          = padStart 2 CHR ''0'' (String (Val (DateFromDay (Day t)))) @ ''/''
            @ padStart 2 CHR ''0'' (String (Val (MonthFromDay (Day t) + 1))) @ ''/''
            @ String (Val (YearFromDay (Day t)))"
    using a out
    by (simp add: formatOutput_def Let_def getFullYear_def getMonth_def getDate_def)
next
  assume a: "clickOK (okDisabled rendered st) st = Some out \<and> mode st = TimeMode"
  then have out: "out = formatOutput st" and en: "\<not> okDisabled rendered st"
    by (auto simp: clickOK_def handleConfirm_def split: if_splits)
  show "timeStr out = selectedSlot st"
    using a out by (simp add: formatOutput_def Let_def)
  show "getAvailableTimeSlots rendered (selectedDate st) \<noteq> []"
    using a en by (simp add: okDisabled_def)
qed

text \<open>
  The date picker mounted at 10:15 on 10 March 2025 with the initial date 2025-03-12 delivers
  that date, which reads back as 12 March; the time picker mounted at 22:00 on 2025-03-10 has
  no slot left, and its button is disabled.
\<close>

theorem okDisabled_spec_witness:
  "clickOK (okDisabled 1741601700000
              (mountPicker 1741601700000 DateMode (Some ''2025-03-12'') (Some [])))
           (mountPicker 1741601700000 DateMode (Some ''2025-03-12'') (Some []))
     = Some \<lparr>dateStr = ''2025-03-12'', timeStr = ''09:00'', formatted = ''12/03/2025''\<rparr>
   \<and> Day 1741601700000 \<le> Day 1741737600000
   \<and> parseInitialDate ''2025-03-12'' = Date (Val (Day 1741737600000 * msPerDay))
   \<and> okDisabled 1741644000000
        (mountPicker 1741644000000 TimeMode (Some ''2025-03-10'') (Some []))"
proof -
  let ?st = "mountPicker 1741601700000 DateMode (Some ''2025-03-12'') (Some [])"
  let ?out = "\<lparr>dateStr = ''2025-03-12'', timeStr = ''09:00'', formatted = ''12/03/2025''\<rparr>"
  let ?st2 = "mountPicker 1741644000000 TimeMode (Some ''2025-03-10'') (Some [])"
  have c: "clickOK (okDisabled 1741601700000 ?st) ?st = Some ?out" by code_simp
  have m: "mode ?st = DateMode" by (simp add: mountPicker_def Let_def)
  have d: "selectedDate ?st = Date (Val 1741737600000)" by code_simp
  have v: "\<bar>1741737600000::int\<bar> \<le> 8640000000000000 \<and> (0::int) \<le> 1741601700000
           \<and> (1741601700000::int) \<le> 8640000000000000"
    by simp
  have "Day 1741601700000 \<le> Day 1741737600000
        \<and> parseInitialDate (dateStr ?out) = Date (Val (Day 1741737600000 * msPerDay))"
    using okDisabled_spec [of 1741601700000 ?st ?out 1741737600000] c m d v by blast
  then have 1: "Day 1741601700000 \<le> Day 1741737600000
        \<and> parseInitialDate ''2025-03-12'' = Date (Val (Day 1741737600000 * msPerDay))"
    by simp
  have e: "mode ?st2 = TimeMode \<and> getAvailableTimeSlots 1741644000000 (selectedDate ?st2) = []"
    by code_simp
  have 2: "okDisabled 1741644000000 ?st2"
    using okDisabled_spec [of 1741644000000 ?st2] e by blast
  show ?thesis using c 1 2 by blast
qed

text \<open>
  The claim as stated fails in two ways. The date picker mounted and rendered at 23:59 on
  10 March 2025 has its button enabled; a click at 00:02 on 11 March, with no render in
  between, delivers 2025-03-10, which is a past date at that time. The date picker mounted
  with the malformed initial date \<open>abc\<close> has an invalid selected date, which is not past, and
  delivers \<open>NaN-NaN-NaN\<close>, which is no calendar date.
\<close>

theorem okDisabled_counterexample:
  "clickOK (okDisabled 1741651140000 (mountPicker 1741651140000 DateMode (Some []) (Some [])))
           (mountPicker 1741651140000 DateMode (Some []) (Some []))
     = Some \<lparr>dateStr = ''2025-03-10'', timeStr = ''09:00'', formatted = ''10/03/2025''\<rparr>
   \<and> isPastDate 1741651320000 (parseInitialDate ''2025-03-10'')
   \<and> clickOK (okDisabled 1741601700000
                (mountPicker 1741601700000 DateMode (Some ''abc'') (Some [])))
              (mountPicker 1741601700000 DateMode (Some ''abc'') (Some []))
       = Some \<lparr>dateStr = ''NaN-NaN-NaN'', timeStr = ''09:00'', formatted = ''NaN/NaN/NaN''\<rparr>"
  by code_simp

subsection \<open>The wheel adapter\<close>

lemma clampedIndex_range:
  "items \<noteq> [] \<Longrightarrow> 0 \<le> clampedIndex items scrollTop \<and> clampedIndex items scrollTop < int (length items)"
  by (cases items) (auto simp: clampedIndex_def Let_def)

text \<open>
  C10. For a non-empty list of items the clamped index lies between 0 and the last index,
  whatever the scroll offset; so the value that the scroll handler passes to \<open>onSelect\<close>
  is an element of the list, and the scroll-end handler snaps to the offset of an index of
  the list.
\<close>

theorem wheel_clamp:
  "items \<noteq> [] \<longrightarrow>
     0 \<le> clampedIndex items scrollTop \<and> clampedIndex items scrollTop \<le> int (length items) - 1
     \<and> (handleScroll items selectedValue container = Some v \<longrightarrow> (\<exists>x\<in>set items. v = Some x))
     \<and> (handleScrollEnd items container = Some pos
          \<longrightarrow> (\<exists>i. 0 \<le> i \<and> i \<le> int (length items) - 1 \<and> pos = i * ITEM_HEIGHT))"
proof
  assume ne: "items \<noteq> []"
  have r: "0 \<le> clampedIndex items x \<and> clampedIndex items x < int (length items)" for x
    using clampedIndex_range [OF ne] .
  have "\<exists>x\<in>set items. v = Some x" if "handleScroll items selectedValue container = Some v"
  proof -
    from that obtain st where "container = Some st" and "v = item_at items (clampedIndex items st)"
      by (auto simp: handleScroll_def split: option.splits if_splits)
    then show ?thesis using r [of st] by (auto simp: item_at_def)
  qed
  moreover have "\<exists>i. 0 \<le> i \<and> i \<le> int (length items) - 1 \<and> pos = i * ITEM_HEIGHT"
    if "handleScrollEnd items container = Some pos"
  proof -
    from that obtain st where "container = Some st" and "pos = clampedIndex items st * ITEM_HEIGHT"
      by (auto simp: handleScrollEnd_def split: option.splits)
    then show ?thesis using r [of st] by (intro exI [of _ "clampedIndex items st"]) simp
  qed
  ultimately show "0 \<le> clampedIndex items scrollTop \<and> clampedIndex items scrollTop \<le> int (length items) - 1
     \<and> (handleScroll items selectedValue container = Some v \<longrightarrow> (\<exists>x\<in>set items. v = Some x))
     \<and> (handleScrollEnd items container = Some pos
          \<longrightarrow> (\<exists>i. 0 \<le> i \<and> i \<le> int (length items) - 1 \<and> pos = i * ITEM_HEIGHT))"
    using r [of scrollTop] by auto
qed

text \<open>
  A scroll offset of 1000 on three items is beyond the last item (index 23 before clamping):
  the last item is selected.
\<close>

theorem wheel_clamp_witness:
  "handleScroll [''09:00'', ''09:30'', ''10:00''] ''09:00'' (Some 1000) = Some (Some ''10:00'')
   \<and> 0 \<le> clampedIndex [''09:00'', ''09:30'', ''10:00''] 1000
   \<and> clampedIndex [''09:00'', ''09:30'', ''10:00''] 1000 \<le> 2"
proof -
  let ?items = "[''09:00'', ''09:30'', ''10:00'']"
  have ne: "?items \<noteq> []" by simp
  have e: "handleScroll ?items ''09:00'' (Some 1000) = Some (Some ''10:00'')" by code_simp
  show ?thesis
    using wheel_clamp [of ?items 1000 "''09:00''" "Some 1000" "Some ''10:00''"] ne e by simp
qed

subsection \<open>The booking wizard\<close>

text \<open>
  C8. From a step greater than 1, going back lowers the step by exactly one and changes no
  field of the booking state. Choosing the service \<open>editing\<close> at step 1 leads to step 2,
  and going back from there leads to step 1 with the service type still \<open>editing\<close>.
\<close>

theorem handleBack_spec:
  "(1 < step s \<longrightarrow> step (handleBack s) = step s - 1 \<and> formData (handleBack s) = formData s
       \<and> handleBack s = s\<lparr>step := step s - 1\<rparr>)
   \<and> step (chooseService ''editing'' initialBookPage) = 2
   \<and> step (handleBack (chooseService ''editing'' initialBookPage)) = 1
   \<and> serviceType (formData (handleBack (chooseService ''editing'' initialBookPage))) = ''editing''"
  by (simp add: handleBack_def chooseService_def handleNext_def updateField_def initialBookPage_def)

text \<open>Going back from step 2, reached by choosing a service.\<close>

theorem handleBack_spec_witness:
  "formData (handleBack (chooseService ''editing'' initialBookPage))
     = formData (chooseService ''editing'' initialBookPage)
   \<and> step (handleBack (chooseService ''editing'' initialBookPage)) = 2 - 1"
proof -
  have h: "1 < step (chooseService ''editing'' initialBookPage)"
    by (simp add: chooseService_def handleNext_def updateField_def initialBookPage_def)
  have s: "step (chooseService ''editing'' initialBookPage) = 2"
    by (simp add: chooseService_def handleNext_def updateField_def initialBookPage_def)
  show ?thesis
    using handleBack_spec [of "chooseService ''editing'' initialBookPage"] h s by simp
qed

text \<open>
  C6. After a submission attempt that fails, the wizard is still in step 4, the booking state
  is unchanged and the wizard is not marked as submitted, so the submission can be repeated.
  An alert is shown exactly when the transport answers with a response that reports no
  success. When the call itself fails (the request is rejected, the answer is not JSON, or
  the answer is \<open>null\<close>) the handler ends at that point and shows no alert.
\<close>

theorem handleSubmit_failure:
  "(step s = 4 \<and> response \<noteq> Json True
    \<longrightarrow> step (handleSubmit response s) = 4
        \<and> formData (handleSubmit response s) = formData s
        \<and> submitted (handleSubmit response s) = submitted s)
   \<and> (alerts (handleSubmit response s) = alerts s + 1 \<longleftrightarrow> response = Json False)
   \<and> (response = FetchRejected \<or> response = JsonRejected \<or> response = JsonNull
      \<longrightarrow> handleSubmit response s = s)"
  by (cases response) (auto simp: handleSubmit_def)

text \<open>
  At step 4, with the server unreachable, the request is rejected: the page is as before and
  no alert has been shown. With an answer that reports no success one alert is shown.
\<close>

theorem handleSubmit_failure_witness:
  "handleSubmit FetchRejected (initialBookPage\<lparr>step := 4\<rparr>) = initialBookPage\<lparr>step := 4\<rparr>
   \<and> alerts (handleSubmit FetchRejected (initialBookPage\<lparr>step := 4\<rparr>)) = 0
   \<and> step (handleSubmit (Json False) (initialBookPage\<lparr>step := 4\<rparr>)) = 4
   \<and> alerts (handleSubmit (Json False) (initialBookPage\<lparr>step := 4\<rparr>)) = 1"
proof -
  let ?s = "initialBookPage\<lparr>step := 4\<rparr>"
  have h: "step ?s = 4 \<and> Json False \<noteq> Json True" by simp
  have k: "FetchRejected = FetchRejected \<or> FetchRejected = JsonRejected
           \<or> FetchRejected = JsonNull"
    by simp
  have 1: "handleSubmit FetchRejected ?s = ?s"
    using handleSubmit_failure [of ?s FetchRejected] k by blast
  then have 2: "alerts (handleSubmit FetchRejected ?s) = 0"
    by (simp add: initialBookPage_def)
  have 3: "step (handleSubmit (Json False) ?s) = 4"
    using handleSubmit_failure [of ?s "Json False"] h by blast
  have "alerts (handleSubmit (Json False) ?s) = alerts ?s + 1"
    using handleSubmit_failure [of ?s "Json False"] by blast
  then have 4: "alerts (handleSubmit (Json False) ?s) = 1"
    by (simp add: initialBookPage_def)
  show ?thesis using 1 2 3 4 by blast
qed

end
